theory Spec2Isabelle
  imports Complex_Main
begin

section \<open>Strings of the host language\<close>

text \<open>
  Strings are byte lists holding the UTF-8 text of the source's literals. The four
  non-ASCII glyphs the sources use are spelled out as their bytes.
\<close>

definition arrow :: string where
  "arrow = [CHR 0xE2, CHR 0x86, CHR 0x92]"

definition crossMark :: string where
  "crossMark = [CHR 0xE2, CHR 0x9D, CHR 0x8C]"

definition checkMark :: string where
  "checkMark = [CHR 0xE2, CHR 0x9C, CHR 0x85]"

definition infoMark :: string where
  "infoMark = [CHR 0xE2, CHR 0x84, CHR 0xB9, CHR 0xEF, CHR 0xB8, CHR 0x8F]"

text \<open>
  \<^verbatim>\<open>String.prototype.toLowerCase\<close>, on the ASCII letters. No text with a character
  outside ASCII has one of the seven phase names as its lower case (the only such
  character with an ASCII lower case is the Kelvin sign, which gives \<open>k\<close>), so the
  bytes of other characters are left as they are.
\<close>

definition toLowerChar :: "char \<Rightarrow> char" where
  "toLowerChar c =
     (case map_of (zip ''ABCDEFGHIJKLMNOPQRSTUVWXYZ'' ''abcdefghijklmnopqrstuvwxyz'') c of
        Some d \<Rightarrow> d
      | None \<Rightarrow> c)"

definition toLowerCase :: "string \<Rightarrow> string" where
  "toLowerCase s = map toLowerChar s"

text \<open>\<^verbatim>\<open>String.prototype.trim\<close>, on the ASCII white space a shell prints.\<close>

definition isSpace :: "char \<Rightarrow> bool" where
  "isSpace c = (c \<in> set [CHR 0x09, CHR 0x0A, CHR 0x0B, CHR 0x0C, CHR 0x0D, CHR 0x20])"

definition trim :: "string \<Rightarrow> string" where
  "trim s = rev (dropWhile isSpace (rev (dropWhile isSpace s)))"

text \<open>\<^verbatim>\<open>Array.prototype.join\<close>.\<close>

fun join :: "string \<Rightarrow> string list \<Rightarrow> string" where
  "join sep [] = []"
| "join sep [x] = x"
| "join sep (x # y # ys) = x @ sep @ join sep (y # ys)"

text \<open>\<^verbatim>\<open>String.prototype.includes\<close>.\<close>

fun str_includes :: "string \<Rightarrow> string \<Rightarrow> bool" where
  "str_includes [] p = (p = [])"
| "str_includes (c # cs) p = (take (length p) (c # cs) = p \<or> str_includes cs p)"

text \<open>
  The white space that \<^verbatim>\<open>parseInt\<close> skips at the start of its argument: the ASCII
  white space and line ends, U+00A0 (two bytes), and the three-byte code points U+1680,
  U+2000 to U+200A, U+2028, U+2029, U+202F, U+205F, U+3000 and U+FEFF.
\<close>

definition wideSpaces :: "string list" where
  "wideSpaces =
     [[CHR 0xE1, CHR 0x9A, CHR 0x80],
      [CHR 0xE2, CHR 0x80, CHR 0x80], [CHR 0xE2, CHR 0x80, CHR 0x81],
      [CHR 0xE2, CHR 0x80, CHR 0x82], [CHR 0xE2, CHR 0x80, CHR 0x83],
      [CHR 0xE2, CHR 0x80, CHR 0x84], [CHR 0xE2, CHR 0x80, CHR 0x85],
      [CHR 0xE2, CHR 0x80, CHR 0x86], [CHR 0xE2, CHR 0x80, CHR 0x87],
      [CHR 0xE2, CHR 0x80, CHR 0x88], [CHR 0xE2, CHR 0x80, CHR 0x89],
      [CHR 0xE2, CHR 0x80, CHR 0x8A], [CHR 0xE2, CHR 0x80, CHR 0xA8],
      [CHR 0xE2, CHR 0x80, CHR 0xA9], [CHR 0xE2, CHR 0x80, CHR 0xAF],
      [CHR 0xE2, CHR 0x81, CHR 0x9F], [CHR 0xE3, CHR 0x80, CHR 0x80],
      [CHR 0xEF, CHR 0xBB, CHR 0xBF]]"

fun skipWhiteSpace :: "string \<Rightarrow> string" where
  "skipWhiteSpace (a # b # c # s) =
     (if isSpace a then skipWhiteSpace (b # c # s)
      else if [a, b] = [CHR 0xC2, CHR 0xA0] then skipWhiteSpace (c # s)
      else if [a, b, c] \<in> set wideSpaces then skipWhiteSpace s
      else a # b # c # s)"
| "skipWhiteSpace [a, b] =
     (if isSpace a then skipWhiteSpace [b]
      else if [a, b] = [CHR 0xC2, CHR 0xA0] then []
      else [a, b])"
| "skipWhiteSpace [a] = (if isSpace a then [] else [a])"
| "skipWhiteSpace [] = []"

text \<open>
  The numbers \<^verbatim>\<open>parseInt\<close> returns: \<^verbatim>\<open>NaN\<close>, an integer that is a double, or an
  infinity. Minus zero is \<open>Finite 0\<close>: it compares and prints as zero.
\<close>

datatype jsint = NaN | Finite int | Infinity | NegInfinity

definition digitOf :: "nat \<Rightarrow> char \<Rightarrow> nat option" where
  "digitOf radix c =
     (case map_of (zip ''0123456789abcdefABCDEF''
                       [0, 1, 2, 3, 4, 5, 6, 7, 8, 9, 10, 11, 12, 13, 14, 15, 10, 11, 12, 13, 14, 15]) c of
        Some d \<Rightarrow> if d < radix then Some d else None
      | None \<Rightarrow> None)"

fun digitsPrefix :: "nat \<Rightarrow> string \<Rightarrow> nat list" where
  "digitsPrefix radix [] = []"
| "digitsPrefix radix (c # cs) =
     (case digitOf radix c of
        Some d \<Rightarrow> d # digitsPrefix radix cs
      | None \<Rightarrow> [])"

text \<open>
  The double nearest to a natural number, ties to the even mantissa of 53 bits; \<open>None\<close>
  is the overflow to infinity.
\<close>

fun bitLength :: "nat \<Rightarrow> nat" where
  "bitLength n = (if n = 0 then 0 else Suc (bitLength (n div 2)))"

declare bitLength.simps [simp del]

definition toDouble :: "nat \<Rightarrow> nat option" where
  "toDouble n =
     (if n < 2 ^ 53 then Some n
      else
        let e = bitLength n - 53;
            q = n div 2 ^ e;
            r = n mod 2 ^ e;
            half = 2 ^ (e - 1);
            q' = (if half < r \<or> (r = half \<and> odd q) then q + 1 else q)
        in if q' * 2 ^ e < 2 ^ 1024 then Some (q' * 2 ^ e) else None)"

text \<open>
  \<^verbatim>\<open>parseInt(s)\<close> with no radix: leading white space, an optional sign, an optional
  \<^verbatim>\<open>0x\<close> prefix, then the longest run of digits, none giving \<^verbatim>\<open>NaN\<close>; the value of
  the digits, taken exactly, is rounded to a double.
\<close>

definition parseInt :: "string \<Rightarrow> jsint" where
  "parseInt s =
     (let s1 = skipWhiteSpace s;
          neg = (take 1 s1 = ''-'');
          s2 = (if take 1 s1 = ''-'' \<or> take 1 s1 = ''+'' then drop 1 s1 else s1);
          hex = (take 2 s2 = ''0x'' \<or> take 2 s2 = ''0X'');
          radix = (if hex then 16 else 10);
          ds = digitsPrefix radix (if hex then drop 2 s2 else s2)
      in if ds = [] then NaN
         else
           case toDouble (foldl (\<lambda>a d. a * radix + d) 0 ds) of
             None \<Rightarrow> if neg then NegInfinity else Infinity
           | Some n \<Rightarrow> Finite (if neg then - int n else int n))"

text \<open>An integer written in decimal, as a threshold is written into the variable.\<close>

fun digitsOf :: "nat \<Rightarrow> nat list" where
  "digitsOf n = (if n < 10 then [n] else digitsOf (n div 10) @ [n mod 10])"

declare digitsOf.simps [simp del]

definition digitChar :: "nat \<Rightarrow> char" where
  "digitChar d = ''0123456789'' ! d"

definition decimalText :: "int \<Rightarrow> string" where
  "decimalText t = (if t < 0 then ''-'' else []) @ map digitChar (digitsOf (nat \<bar>t\<bar>))"

section \<open>Objects used as dictionaries\<close>

text \<open>
  The reports are plain objects \<^verbatim>\<open>{}\<close> indexed by strings taken from the logs. An
  object is modelled by its own properties, in insertion order. A read \<^verbatim>\<open>obj[k]\<close> of a
  key that is not an own property finds the member every object inherits from
  \<^verbatim>\<open>Object.prototype\<close> when \<open>k\<close> is one of the names below, and \<^verbatim>\<open>undefined\<close>
  otherwise.
\<close>

definition objectPrototypeKeys :: "string list" where
  "objectPrototypeKeys =
     [''constructor'', ''__defineGetter__'', ''__defineSetter__'', ''hasOwnProperty'',
      ''__lookupGetter__'', ''__lookupSetter__'', ''isPrototypeOf'', ''propertyIsEnumerable'',
      ''toString'', ''valueOf'', ''__proto__'', ''toLocaleString'']"

type_synonym 'v jsobject = "(string \<times> 'v) list"

fun setOwn :: "'k \<Rightarrow> 'v \<Rightarrow> ('k \<times> 'v) list \<Rightarrow> ('k \<times> 'v) list" where
  "setOwn k v [] = [(k, v)]"
| "setOwn k v ((k', v') # kvs) = (if k' = k then (k, v) # kvs else (k', v') # setOwn k v kvs)"

text \<open>\<^verbatim>\<open>Set.prototype.add\<close> on a set kept in insertion order.\<close>

definition addToSet :: "'a list \<Rightarrow> 'a \<Rightarrow> 'a list" where
  "addToSet xs x = (if x \<in> set xs then xs else xs @ [x])"

section \<open>Data model\<close>

text \<open>
  Errors a call can raise: \<^verbatim>\<open>JSON.parse\<close> on a malformed line, a failing file-system
  write, and the blocking error of the strict quality gate with its message.
\<close>

datatype fsfile = WorkflowDir | TransitionsLog | GateLogFile | ReportFile | QualityReportFile

datatype error = SyntaxError | FsError fsfile | GateBlocked string

text \<open>
  A time stamp is the clock reading in milliseconds (\<^verbatim>\<open>Date.now()\<close>); the ISO text
  \<^verbatim>\<open>toISOString\<close> renders from it is not modelled.
\<close>

record WorkflowTransition =
  t_timestamp :: int
  t_from :: "string option"
  t_to :: string
  t_duration :: int
  t_filesModified :: "string list option"

record PhaseStats =
  count :: nat
  totalDuration :: int

record WorkflowReport =
  totalTransitions :: nat
  phases :: "PhaseStats jsobject"
  filesChanged :: "string list"

record GateResult =
  passed :: bool
  message :: string
  transition :: string
  timestamp :: int

datatype mode = Warning | Strict

record GateLog =
  log_transition :: string
  log_passed :: bool
  log_message :: string
  log_timestamp :: int
  log_mode :: mode
  log_blocked :: bool

record TransitionStats =
  ts_total :: nat
  ts_passed :: nat
  ts_failed :: nat

text \<open>
  A value of \<^verbatim>\<open>commonFailures\<close>: a count, or the text that \<^verbatim>\<open>+ 1\<close> makes of an
  inherited member.
\<close>

datatype failureCount = Count nat | NotACount

record QualityReport =
  totalChecks :: nat
  qr_passed :: nat
  qr_failed :: nat
  qr_blocked :: nat
  byTransition :: "TransitionStats jsobject"
  commonFailures :: "failureCount jsobject"

text \<open>
  A JSON-lines file is kept as the list of lines that
  \<^verbatim>\<open>readFileSync(f, "utf-8").trim().split("\n")\<close> yields, each line with what
  \<^verbatim>\<open>JSON.parse\<close> makes of it: \<open>Parsed v\<close> is the text of the record \<open>v\<close>, \<open>Malformed s\<close>
  is text \<^verbatim>\<open>JSON.parse\<close> rejects. A file with no text at all is the empty list; the
  source reads it as the single line \<^verbatim>\<open>""\<close>, which \<^verbatim>\<open>JSON.parse\<close> rejects.
  Lines that are JSON but not records of the file's schema are outside the model.
\<close>

datatype 'a logline = Parsed 'a | Malformed string

definition fileLines :: "'a logline list \<Rightarrow> 'a logline list" where
  "fileLines content = (if content = [] then [Malformed []] else content)"

text \<open>\<^verbatim>\<open>lines.map((line) => JSON.parse(line))\<close>: the first malformed line throws.\<close>

fun parseLines :: "'a logline list \<Rightarrow> error + 'a list" where
  "parseLines [] = Inr []"
| "parseLines (Malformed s # ls) = Inl SyntaxError"
| "parseLines (Parsed v # ls) =
     (case parseLines ls of
        Inl e \<Rightarrow> Inl e
      | Inr vs \<Rightarrow> Inr (v # vs))"

datatype variant = Success | Error | WarningToast | Info

text \<open>
  The state: the module variables of \<^verbatim>\<open>lib/workflow-state.ts\<close>, the plugin's map of
  recent modifications, the files under \<^verbatim>\<open>.opencode/workflow\<close> (\<open>None\<close>: the file does
  not exist), and the notifications requested so far.
\<close>

record state =
  currentPhase :: "string option"
  phaseStartTime :: "int option"
  filesModified :: "string list"
  recentModifications :: "(int \<times> string list) list"
  workflowDirExists :: bool
  transitionsFile :: "WorkflowTransition logline list option"
  gateLogFile :: "GateLog logline list option"
  reportFile :: "WorkflowReport option"
  qualityReportFile :: "QualityReport option"
  toasts :: "(variant \<times> string) list"

definition initialState :: state where
  "initialState =
     \<lparr>currentPhase = None, phaseStartTime = None, filesModified = [],
      recentModifications = [], workflowDirExists = False, transitionsFile = None,
      gateLogFile = None, reportFile = None, qualityReportFile = None, toasts = []\<rparr>"

text \<open>
  What a shell command of the plugin gives: it resolves with a value, or the awaited
  call throws and \<open>Threw e\<close> carries the text \<^verbatim>\<open>${error}\<close> renders.
\<close>

datatype 'a outcome = Returned 'a | Threw string

text \<open>
  The value of \<^verbatim>\<open>coverage.total?.lines?.pct\<close>: a number, or nothing (the member is
  missing).
\<close>

datatype pct = Pct rat | NoPct

text \<open>
  The host during one call: the clock, which writes fail (a failing write leaves its
  file as it was), how a number and a caught error print in a string, and the outcome of each shell probe of the quality gates, in the
  order of the source. \<open>sh_tsc\<close>, \<open>sh_eslint\<close>, \<open>sh_npmTest\<close> and \<open>sh_npmAudit\<close> resolve
  with an exit code. \<open>readCoverage\<close> is lines 165 to 167 of the plugin as one step:
  \<^verbatim>\<open>cat\<close> of the summary, \<^verbatim>\<open>JSON.parse\<close> and the member read; it throws when any of
  them does.
\<close>

record host =
  now :: int
  writeFails :: "fsfile \<Rightarrow> bool"
  numberToString :: "rat \<Rightarrow> string"
  errorToString :: "error \<Rightarrow> string"
  sh_findDesignFiles :: "string outcome"
  sh_testTsconfig :: "string outcome"
  sh_tsc :: "nat outcome"
  sh_testEslint :: "string outcome"
  sh_eslint :: "nat outcome"
  sh_grepNpmTest :: "string outcome"
  sh_npmTest :: "nat outcome"
  sh_testCoverage :: "string outcome"
  readCoverage :: "pct outcome"
  sh_npmAudit :: "nat outcome"
  sh_testChangelog :: "string outcome"

text \<open>The environment variables the plugin reads (\<open>None\<close>: not set).\<close>

record settings =
  ENABLE_QUALITY_GATE :: "string option"
  QUALITY_GATE_STRICT :: "string option"
  QUALITY_GATE_COVERAGE_THRESHOLD :: "string option"

definition enabled :: "settings \<Rightarrow> bool" where
  "enabled cfg = (ENABLE_QUALITY_GATE cfg \<noteq> Some ''false'')"

definition strictMode :: "settings \<Rightarrow> bool" where
  "strictMode cfg = (QUALITY_GATE_STRICT cfg = Some ''true'')"

definition coverageThreshold :: "settings \<Rightarrow> jsint" where
  "coverageThreshold cfg =
     parseInt (case QUALITY_GATE_COVERAGE_THRESHOLD cfg of
                 None \<Rightarrow> ''80''
               | Some v \<Rightarrow> if v = [] then ''80'' else v)"

section \<open>Notifications\<close>

text \<open>
  \<^verbatim>\<open>notify(client, ...)\<close>: \<^verbatim>\<open>show\<close> catches a failing toast itself, so a notification
  never throws; the state records the request.
\<close>

definition notifier_show :: "variant \<Rightarrow> string \<Rightarrow> state \<Rightarrow> state" where
  "notifier_show v msg s = s\<lparr>toasts := toasts s @ [(v, msg)]\<rparr>"

section \<open>Workflow state (lib/workflow-state.ts)\<close>

definition getCurrentPhase :: "state \<Rightarrow> string option" where
  "getCurrentPhase s = currentPhase s"

definition setCurrentPhase :: "int \<Rightarrow> string \<Rightarrow> state \<Rightarrow> state" where
  "setCurrentPhase clock phase s = s\<lparr>currentPhase := Some phase, phaseStartTime := Some clock\<rparr>"

definition getFilesModified :: "state \<Rightarrow> string list" where
  "getFilesModified s = filesModified s"

definition addModifiedFile :: "string \<Rightarrow> state \<Rightarrow> state" where
  "addModifiedFile filePath s = s\<lparr>filesModified := addToSet (filesModified s) filePath\<rparr>"

definition clearModifiedFiles :: "state \<Rightarrow> state" where
  "clearModifiedFiles s = s\<lparr>filesModified := []\<rparr>"

text \<open>A run of \<^verbatim>\<open>setCurrentPhase\<close> calls, each with the clock reading of its moment.\<close>

fun setPhaseCalls :: "(int \<times> string) list \<Rightarrow> state \<Rightarrow> state" where
  "setPhaseCalls [] s = s"
| "setPhaseCalls ((clock, phase) # calls) s = setPhaseCalls calls (setCurrentPhase clock phase s)"

definition initializeWorkflowState :: "host \<Rightarrow> state \<Rightarrow> error + state" where
  "initializeWorkflowState h s =
     (if workflowDirExists s then Inr s
      else if writeFails h WorkflowDir then Inl (FsError WorkflowDir)
      else Inr (s\<lparr>workflowDirExists := True\<rparr>))"

text \<open>
  \<^verbatim>\<open>logTransition\<close>: the record is built and \<^verbatim>\<open>appendFileSync\<close> adds its line; nothing
  catches a failing write.
\<close>

definition logTransition :: "host \<Rightarrow> string option \<Rightarrow> string \<Rightarrow> string list \<Rightarrow> state \<Rightarrow> error + state" where
  "logTransition h from to files s =
     (let transition =
            \<lparr>t_timestamp = now h, t_from = from, t_to = to,
             t_duration = (case phaseStartTime s of Some started \<Rightarrow> now h - started | None \<Rightarrow> 0),
             t_filesModified = Some files\<rparr>
      in if writeFails h TransitionsLog then Inl (FsError TransitionsLog)
         else Inr (s\<lparr>transitionsFile :=
                        Some ((case transitionsFile s of None \<Rightarrow> [] | Some ls \<Rightarrow> ls) @ [Parsed transition])\<rparr>))"

definition countPhase :: "string \<Rightarrow> int \<Rightarrow> PhaseStats jsobject \<Rightarrow> PhaseStats jsobject" where
  "countPhase k d ps =
     (case map_of ps k of
        Some st \<Rightarrow> setOwn k \<lparr>count = count st + 1, totalDuration = totalDuration st + d\<rparr> ps
      | None \<Rightarrow>
          if k \<in> set objectPrototypeKeys then ps
          else setOwn k \<lparr>count = 1, totalDuration = d\<rparr> ps)"

definition reportStep :: "WorkflowReport \<Rightarrow> WorkflowTransition \<Rightarrow> WorkflowReport" where
  "reportStep report t =
     (let r1 = (if t_to t \<noteq> [] then report\<lparr>phases := countPhase (t_to t) (t_duration t) (phases report)\<rparr>
                else report)
      in case t_filesModified t of
           None \<Rightarrow> r1
         | Some fs \<Rightarrow> r1\<lparr>filesChanged := foldl addToSet (filesChanged r1) fs\<rparr>)"

definition foldReport :: "WorkflowTransition list \<Rightarrow> WorkflowReport" where
  "foldReport transitions =
     foldl reportStep \<lparr>totalTransitions = length transitions, phases = [], filesChanged = []\<rparr> transitions"

text \<open>The sum of \<^verbatim>\<open>phases[p].count\<close> over the phases \<open>p\<close> of a report.\<close>

definition phaseCountSum :: "PhaseStats jsobject \<Rightarrow> nat" where
  "phaseCountSum ps = sum_list (map (\<lambda>kv. count (snd kv)) ps)"

datatype reportResult = NoData string | Report WorkflowReport

text \<open>
  \<^verbatim>\<open>generateReport\<close>. \<^verbatim>\<open>JSON.stringify\<close> writes a \<^verbatim>\<open>Set\<close> as \<^verbatim>\<open>{}\<close>, so the file holds
  the report without its \<open>filesChanged\<close>.
\<close>

definition generateReport :: "host \<Rightarrow> state \<Rightarrow> (error + reportResult) \<times> state" where
  "generateReport h s =
     (case transitionsFile s of
        None \<Rightarrow> (Inr (NoData ''No workflow data available yet.''), s)
      | Some content \<Rightarrow>
          (case parseLines (fileLines content) of
             Inl e \<Rightarrow> (Inl e, s)
           | Inr transitions \<Rightarrow>
               let report = foldReport transitions
               in if writeFails h ReportFile then (Inl (FsError ReportFile), s)
                  else (Inr (Report report), s\<lparr>reportFile := Some (report\<lparr>filesChanged := []\<rparr>)\<rparr>)))"

section \<open>The track-phase tool\<close>

definition validPhases :: "string list" where
  "validPhases = [''plan'', ''design'', ''implement'', ''test'', ''review'', ''release'', ''operate'']"

definition invalidPhaseMessage :: "string \<Rightarrow> string" where
  "invalidPhaseMessage phase =
     crossMark @ '' Invalid phase: '' @ phase @ ''. Must be one of: '' @ join '', '' validPhases"

definition transitionedMessage :: "string \<Rightarrow> string option \<Rightarrow> string" where
  "transitionedMessage phase previousPhase =
     checkMark @ '' Transitioned to '' @ phase @ '' phase'' @
       (case previousPhase of
          None \<Rightarrow> []
        | Some p \<Rightarrow> if p = [] then [] else '' from '' @ p)"

definition trackPhase :: "host \<Rightarrow> string \<Rightarrow> state \<Rightarrow> (error + string) \<times> state" where
  "trackPhase h phase s =
     (if toLowerCase phase \<notin> set validPhases then (Inr (invalidPhaseMessage phase), s)
      else
        case initializeWorkflowState h s of
          Inl e \<Rightarrow> (Inl e, s)
        | Inr s1 \<Rightarrow>
            let previousPhase = getCurrentPhase s1;
                modifiedFiles = getFilesModified s1
            in case logTransition h previousPhase phase modifiedFiles s1 of
                 Inl e \<Rightarrow> (Inl e, s1)
               | Inr s2 \<Rightarrow>
                   (Inr (transitionedMessage phase previousPhase),
                    clearModifiedFiles (setCurrentPhase (now h) phase s2)))"

section \<open>The quality gate plugin (plugin/quality-gate.ts)\<close>

definition gateResult :: "host \<Rightarrow> string \<Rightarrow> bool \<Rightarrow> string \<Rightarrow> GateResult" where
  "gateResult h key ok msg = \<lparr>passed = ok, message = msg, transition = key, timestamp = now h\<rparr>"

definition gate_design_implement :: "host \<Rightarrow> GateResult" where
  "gate_design_implement h =
     (let key = ''design'' @ arrow @ ''implement''
      in case sh_findDesignFiles h of
           Threw e \<Rightarrow> gateResult h key False (crossMark @ '' Error checking design files: '' @ e)
         | Returned designFiles \<Rightarrow>
             if trim designFiles = []
             then gateResult h key False
                    (crossMark @ '' No design files found. Create design specifications before implementing.'')
             else gateResult h key True (checkMark @ '' Design files present''))"

text \<open>The lint step of the implement-to-test gate, run once the compile step is over.\<close>

definition lintStep :: "host \<Rightarrow> string \<Rightarrow> GateResult" where
  "lintStep h key =
     (case sh_testEslint h of
        Threw e \<Rightarrow> gateResult h key False (crossMark @ '' Error during implementation validation: '' @ e)
      | Returned hasEslint \<Rightarrow>
          if trim hasEslint = ''true'' then
            (case sh_eslint h of
               Threw e \<Rightarrow>
                 gateResult h key False (crossMark @ '' Linting failed. Fix linting errors before testing.'')
             | Returned exitCode \<Rightarrow> gateResult h key True (checkMark @ '' Code compiles and passes linting''))
          else gateResult h key True (checkMark @ '' Code compiles and passes linting''))"

definition gate_implement_test :: "host \<Rightarrow> GateResult" where
  "gate_implement_test h =
     (let key = ''implement'' @ arrow @ ''test''
      in case sh_testTsconfig h of
           Threw e \<Rightarrow> gateResult h key False (crossMark @ '' Error during implementation validation: '' @ e)
         | Returned hasTypeScript \<Rightarrow>
             if trim hasTypeScript = ''true'' then
               (case sh_tsc h of
                  Threw e \<Rightarrow>
                    gateResult h key False
                      (crossMark @ '' TypeScript compilation failed. Fix type errors before testing.'')
                | Returned exitCode \<Rightarrow> lintStep h key)
             else lintStep h key)"

text \<open>\<^verbatim>\<open>totalCoverage < coverageThreshold\<close>; a comparison with \<^verbatim>\<open>NaN\<close> is false.\<close>

definition belowThreshold :: "rat \<Rightarrow> jsint \<Rightarrow> bool" where
  "belowThreshold totalCoverage threshold =
     (case threshold of
        NaN \<Rightarrow> False
      | Finite t \<Rightarrow> totalCoverage < of_int t
      | Infinity \<Rightarrow> True
      | NegInfinity \<Rightarrow> False)"

definition thresholdText :: "host \<Rightarrow> jsint \<Rightarrow> string" where
  "thresholdText h threshold =
     (case threshold of
        NaN \<Rightarrow> ''NaN''
      | Finite t \<Rightarrow> numberToString h (of_int t)
      | Infinity \<Rightarrow> ''Infinity''
      | NegInfinity \<Rightarrow> ''-Infinity'')"

text \<open>
  The coverage step of the test-to-review gate, run once the test step is over. A
  throwing \<open>readCoverage\<close> is caught by the inner \<^verbatim>\<open>catch\<close>, whose body is the comment
  \<^verbatim>\<open>// Could not verify coverage - continue\<close>.
\<close>

definition coverageStep :: "host \<Rightarrow> jsint \<Rightarrow> string \<Rightarrow> GateResult" where
  "coverageStep h threshold key =
     (case sh_testCoverage h of
        Threw e \<Rightarrow> gateResult h key False (crossMark @ '' Error during test validation: '' @ e)
      | Returned hasCoverage \<Rightarrow>
          if trim hasCoverage = ''true'' then
            (case readCoverage h of
               Threw e \<Rightarrow> gateResult h key True (checkMark @ '' Tests pass with sufficient coverage'')
             | Returned p \<Rightarrow>
                 let totalCoverage = (case p of Pct c \<Rightarrow> c | NoPct \<Rightarrow> 0)
                 in if belowThreshold totalCoverage threshold
                    then gateResult h key False
                           (crossMark @ '' Coverage is '' @ numberToString h totalCoverage @ ''%. Must be >'' @
                            thresholdText h threshold @ ''% before review.'')
                    else gateResult h key True (checkMark @ '' Tests pass with sufficient coverage''))
          else gateResult h key True (checkMark @ '' Tests pass with sufficient coverage''))"

definition gate_test_review :: "host \<Rightarrow> jsint \<Rightarrow> GateResult" where
  "gate_test_review h threshold =
     (let key = ''test'' @ arrow @ ''review''
      in case sh_grepNpmTest h of
           Threw e \<Rightarrow> gateResult h key False (crossMark @ '' Error during test validation: '' @ e)
         | Returned hasNpmTest \<Rightarrow>
             if trim hasNpmTest = ''true'' then
               (case sh_npmTest h of
                  Threw e \<Rightarrow>
                    gateResult h key False (crossMark @ '' Tests failed. Fix failing tests before review.'')
                | Returned exitCode \<Rightarrow> coverageStep h threshold key)
             else coverageStep h threshold key)"

definition gate_review_release :: "host \<Rightarrow> GateResult" where
  "gate_review_release h =
     (let key = ''review'' @ arrow @ ''release''
      in case sh_npmAudit h of
           Threw e \<Rightarrow>
             gateResult h key False (crossMark @ '' Security audit failed. Fix vulnerabilities before release.'')
         | Returned exitCode \<Rightarrow>
             if exitCode \<noteq> 0
             then gateResult h key False
                    (crossMark @ '' Security vulnerabilities found. Run 'npm audit' to see details.'')
             else
               (case sh_testChangelog h of
                  Threw e \<Rightarrow> gateResult h key False (crossMark @ '' Error during release validation: '' @ e)
                | Returned hasChangelog \<Rightarrow>
                    if trim hasChangelog \<noteq> ''true''
                    then gateResult h key False
                           (crossMark @ '' CHANGELOG.md not found. Update changelog before release.'')
                    else gateResult h key True (checkMark @ '' Security clean and documentation updated'')))"

text \<open>The names of the four own properties of \<^verbatim>\<open>gates\<close>.\<close>

definition gateKeys :: "string list" where
  "gateKeys =
     [''design'' @ arrow @ ''implement'', ''implement'' @ arrow @ ''test'',
      ''test'' @ arrow @ ''review'', ''review'' @ arrow @ ''release'']"

definition noGateMessage :: "string \<Rightarrow> string" where
  "noGateMessage key = infoMark @ ''  No quality gate defined for transition: '' @ key"

text \<open>
  \<^verbatim>\<open>validateGate\<close>: the lookup \<^verbatim>\<open>gates[transition]\<close> among the four own properties of
  \<^verbatim>\<open>gates\<close>. Every key the plugin passes is built by \<open>transitionKey\<close> and so holds the
  arrow; no member inherited from \<^verbatim>\<open>Object.prototype\<close> has such a name.
\<close>

definition transitionKey :: "string \<Rightarrow> string \<Rightarrow> string" where
  "transitionKey cur next = cur @ arrow @ next"

definition validateGate :: "host \<Rightarrow> jsint \<Rightarrow> string \<Rightarrow> GateResult" where
  "validateGate h threshold key =
     (if key = ''design'' @ arrow @ ''implement'' then gate_design_implement h
      else if key = ''implement'' @ arrow @ ''test'' then gate_implement_test h
      else if key = ''test'' @ arrow @ ''review'' then gate_test_review h threshold
      else if key = ''review'' @ arrow @ ''release'' then gate_review_release h
      else gateResult h key True (noGateMessage key))"

text \<open>
  \<^verbatim>\<open>logGateCheck\<close>: a failing \<^verbatim>\<open>appendFileSync\<close> is caught and turned into an error
  notification.
\<close>

definition logGateCheck :: "host \<Rightarrow> GateLog \<Rightarrow> state \<Rightarrow> state" where
  "logGateCheck h entry s =
     (if writeFails h GateLogFile
      then notifier_show Error (''Failed to log quality gate check: '' @ errorToString h (FsError GateLogFile)) s
      else s\<lparr>gateLogFile := Some ((case gateLogFile s of None \<Rightarrow> [] | Some ls \<Rightarrow> ls) @ [Parsed entry])\<rparr>)"

definition suggestions :: "(string \<times> string) list" where
  "suggestions =
     [(''.ts'', ''Consider running 'implement'' @ arrow @ ''test' gate (compilation check)''),
      (''.tsx'', ''Consider running 'implement'' @ arrow @ ''test' gate (compilation check)''),
      (''.js'', ''Consider running 'implement'' @ arrow @ ''test' gate (linting check)''),
      (''.jsx'', ''Consider running 'implement'' @ arrow @ ''test' gate (linting check)''),
      (''test.'', ''Consider running 'test'' @ arrow @ ''review' gate (test coverage check)''),
      (''spec.'', ''Consider running 'test'' @ arrow @ ''review' gate (test coverage check)''),
      (''.design.md'', ''Consider running 'design'' @ arrow @ ''implement' gate (design review)''),
      (''.schema.sql'', ''Consider running 'design'' @ arrow @ ''implement' gate (schema review)''),
      (''CHANGELOG.md'', ''Consider running 'review'' @ arrow @ ''release' gate (release readiness)'')]"

definition suggestGateCheck :: "string \<Rightarrow> string option" where
  "suggestGateCheck filePath =
     (case filter (\<lambda>(pattern, suggestion). str_includes filePath pattern) suggestions of
        [] \<Rightarrow> None
      | (pattern, suggestion) # rest \<Rightarrow> Some suggestion)"

text \<open>The arguments of a tool call that the hook reads (\<open>None\<close>: not given).\<close>

record toolArgs =
  arg_phase :: "string option"
  arg_file_path :: "string option"
  arg_path :: "string option"

text \<open>A string that is given and not empty, as \<^verbatim>\<open>if (x)\<close> and \<^verbatim>\<open>x || y\<close> test it.\<close>

definition truthy :: "string option \<Rightarrow> bool" where
  "truthy x = (case x of None \<Rightarrow> False | Some v \<Rightarrow> v \<noteq> [])"

definition trackModification :: "host \<Rightarrow> toolArgs \<Rightarrow> state \<Rightarrow> state" where
  "trackModification h args s =
     (let filePath = (if truthy (arg_file_path args) then arg_file_path args else arg_path args)
      in case filePath of
           None \<Rightarrow> s
         | Some path \<Rightarrow>
             if path = [] then s
             else
               let entry = (case map_of (recentModifications s) (now h) of None \<Rightarrow> [] | Some fs \<Rightarrow> fs);
                   s1 = s\<lparr>recentModifications :=
                            setOwn (now h) (entry @ [path]) (recentModifications s)\<rparr>
               in case suggestGateCheck path of
                    None \<Rightarrow> s1
                  | Some suggestion \<Rightarrow> notifier_show Info suggestion s1)"

definition blockedMessage :: "string \<Rightarrow> string" where
  "blockedMessage msg =
     ''Quality gate failed: '' @ msg @ [CHR 0x0A, CHR 0x0A] @
     ''Transition blocked. Fix the issues and try again.''"

text \<open>
  The \<^verbatim>\<open>"tool.execute.before"\<close> hook. \<open>Inl\<close> is the error it throws, \<open>Inr ()\<close> its normal
  return.
\<close>

definition tool_execute_before ::
  "settings \<Rightarrow> host \<Rightarrow> string \<Rightarrow> toolArgs \<Rightarrow> state \<Rightarrow> (error + unit) \<times> state" where
  "tool_execute_before cfg h tool args s0 =
     (let s1 = (if tool = ''write'' \<or> tool = ''edit'' then trackModification h args s0 else s0)
      in if tool \<noteq> ''track-phase'' then (Inr (), s1)
         else
           case (getCurrentPhase s1, arg_phase args) of
             (Some cur, Some next) \<Rightarrow>
               if cur = [] \<or> next = [] then (Inr (), s1)
               else
                 let key = transitionKey cur next;
                     result = validateGate h (coverageThreshold cfg) key;
                     s2 = logGateCheck h
                            \<lparr>log_transition = key, log_passed = passed result,
                             log_message = message result, log_timestamp = timestamp result,
                             log_mode = (if strictMode cfg then Strict else Warning),
                             log_blocked = (\<not> passed result \<and> strictMode cfg)\<rparr> s1
                 in if \<not> passed result then
                      if strictMode cfg then (Inl (GateBlocked (blockedMessage (message result))), s2)
                      else (Inr (), notifier_show WarningToast (''Quality Gate Warning: '' @ message result) s2)
                    else (Inr (), s2)
           | (Some cur, None) \<Rightarrow> (Inr (), s1)
           | (None, next) \<Rightarrow> (Inr (), s1))"

text \<open>The plugin returns no hooks at all when it is disabled.\<close>

definition qualityGate_before ::
  "settings \<Rightarrow> host \<Rightarrow> string \<Rightarrow> toolArgs \<Rightarrow> state \<Rightarrow> (error + unit) \<times> state" where
  "qualityGate_before cfg h tool args s =
     (if enabled cfg then tool_execute_before cfg h tool args s else (Inr (), s))"

text \<open>
  A request to run the track-phase tool: the host runs the plugin's hook first, and
  the tool's \<^verbatim>\<open>execute\<close> only when the hook has not thrown.
\<close>

definition requestTrackPhase ::
  "settings \<Rightarrow> host \<Rightarrow> string \<Rightarrow> state \<Rightarrow> (error + string) \<times> state" where
  "requestTrackPhase cfg h phase s =
     (case qualityGate_before cfg h ''track-phase''
             \<lparr>arg_phase = Some phase, arg_file_path = None, arg_path = None\<rparr> s of
        (Inl e, s1) \<Rightarrow> (Inl e, s1)
      | (Inr u, s1) \<Rightarrow> trackPhase h phase s1)"

section \<open>The quality report\<close>

definition countTransition :: "string \<Rightarrow> bool \<Rightarrow> TransitionStats jsobject \<Rightarrow> TransitionStats jsobject" where
  "countTransition k ok obj =
     (let bump = (\<lambda>st. \<lparr>ts_total = ts_total st + 1,
                         ts_passed = (if ok then ts_passed st + 1 else ts_passed st),
                         ts_failed = (if ok then ts_failed st else ts_failed st + 1)\<rparr>)
      in case map_of obj k of
           Some st \<Rightarrow> setOwn k (bump st) obj
         | None \<Rightarrow>
             if k \<in> set objectPrototypeKeys then obj
             else setOwn k (bump \<lparr>ts_total = 0, ts_passed = 0, ts_failed = 0\<rparr>) obj)"

text \<open>
  \<^verbatim>\<open>commonFailures[k] = (commonFailures[k] || 0) + 1\<close>. An inherited member plus one
  is a text, stored as an own property; the setter of \<^verbatim>\<open>__proto__\<close> drops it.
\<close>

definition countFailure :: "string \<Rightarrow> failureCount jsobject \<Rightarrow> failureCount jsobject" where
  "countFailure k obj =
     (case map_of obj k of
        Some (Count n) \<Rightarrow> setOwn k (Count (n + 1)) obj
      | Some NotACount \<Rightarrow> obj
      | None \<Rightarrow>
          if k \<in> set objectPrototypeKeys
          then (if k = ''__proto__'' then obj else setOwn k NotACount obj)
          else setOwn k (Count 1) obj)"

definition qualityStep :: "QualityReport \<Rightarrow> GateLog \<Rightarrow> QualityReport" where
  "qualityStep report l =
     (let r1 = report\<lparr>byTransition := countTransition (log_transition l) (log_passed l) (byTransition report)\<rparr>
      in if \<not> log_passed l
         then r1\<lparr>commonFailures :=
                   countFailure (takeWhile (\<lambda>c. c \<noteq> CHR '':'') (log_message l)) (commonFailures r1)\<rparr>
         else r1)"

text \<open>
  The fold of \<^verbatim>\<open>generateQualityReport\<close>. The member \<^verbatim>\<open>passRate\<close>, a decimal text of
  \<open>qr_passed / totalChecks\<close>, is left out.
\<close>

definition foldQualityReport :: "GateLog list \<Rightarrow> QualityReport" where
  "foldQualityReport logs =
     foldl qualityStep
       \<lparr>totalChecks = length logs,
        qr_passed = length (filter (\<lambda>l. log_passed l) logs),
        qr_failed = length (filter (\<lambda>l. \<not> log_passed l) logs),
        qr_blocked = length (filter (\<lambda>l. log_blocked l) logs),
        byTransition = [], commonFailures = []\<rparr> logs"

text \<open>
  \<^verbatim>\<open>generateQualityReport\<close>: \<open>None\<close> is \<^verbatim>\<open>null\<close>. The \<^verbatim>\<open>try\<close> block holds the
  read, the parse, the fold and the write; its \<^verbatim>\<open>catch\<close> notifies and returns \<^verbatim>\<open>null\<close>.
\<close>

definition generateQualityReport :: "host \<Rightarrow> state \<Rightarrow> QualityReport option \<times> state" where
  "generateQualityReport h s =
     (case gateLogFile s of
        None \<Rightarrow> (None, s)
      | Some content \<Rightarrow>
          (case parseLines (fileLines content) of
             Inl e \<Rightarrow>
               (None, notifier_show Error (''Failed to generate quality report: '' @ errorToString h e) s)
           | Inr logs \<Rightarrow>
               let report = foldQualityReport logs
               in if writeFails h QualityReportFile
                  then (None, notifier_show Error
                                (''Failed to generate quality report: '' @
                                 errorToString h (FsError QualityReportFile)) s)
                  else (Some report, s\<lparr>qualityReportFile := Some report\<rparr>)))"

definition nextPhases :: "(string \<times> string) list" where
  "nextPhases =
     [(''design'', ''implement''), (''implement'', ''test''), (''test'', ''review''),
      (''review'', ''release'')]"

text \<open>The \<^verbatim>\<open>event\<close> hook, on the type of the event.\<close>

definition event :: "settings \<Rightarrow> host \<Rightarrow> string \<Rightarrow> state \<Rightarrow> state" where
  "event cfg h evtType s =
     (let s1 =
            (if evtType = ''session.idle'' then
               (case getCurrentPhase s of
                  None \<Rightarrow> s
                | Some cur \<Rightarrow>
                    (case map_of nextPhases cur of
                       None \<Rightarrow> s
                     | Some next \<Rightarrow>
                         let result = validateGate h (coverageThreshold cfg) (transitionKey cur next)
                         in if \<not> passed result \<and> \<not> strictMode cfg
                            then notifier_show Info (''Quality gate reminder: '' @ message result) s
                            else s))
             else s)
      in if evtType = ''session.deleted'' then snd (generateQualityReport h s1) else s1)"

definition qualityGate_event :: "settings \<Rightarrow> host \<Rightarrow> string \<Rightarrow> state \<Rightarrow> state" where
  "qualityGate_event cfg h evtType s = (if enabled cfg then event cfg h evtType s else s)"

text \<open>The record the hook hands to \<^verbatim>\<open>logGateCheck\<close>, for a key and the result of its gate.\<close>

definition gateLogEntry :: "settings \<Rightarrow> string \<Rightarrow> GateResult \<Rightarrow> GateLog" where
  "gateLogEntry cfg key result =
     \<lparr>log_transition = key, log_passed = passed result, log_message = message result,
      log_timestamp = timestamp result,
      log_mode = (if strictMode cfg then Strict else Warning),
      log_blocked = (\<not> passed result \<and> strictMode cfg)\<rparr>"

text \<open>The \<^verbatim>\<open>passed\<close> member of a line of the gate log.\<close>

definition linePassed :: "GateLog logline \<Rightarrow> bool option" where
  "linePassed l = (case l of Parsed g \<Rightarrow> Some (log_passed g) | Malformed m \<Rightarrow> None)"

text \<open>The lines a call has added to the gate log, given the states before and after.\<close>

definition gateLogLines :: "state \<Rightarrow> GateLog logline list" where
  "gateLogLines s = (case gateLogFile s of None \<Rightarrow> [] | Some ls \<Rightarrow> ls)"

definition appendedGateLines :: "state \<Rightarrow> state \<Rightarrow> GateLog logline list" where
  "appendedGateLines s s' = drop (length (gateLogLines s)) (gateLogLines s')"

definition transitionLines :: "state \<Rightarrow> WorkflowTransition logline list" where
  "transitionLines s = (case transitionsFile s of None \<Rightarrow> [] | Some ls \<Rightarrow> ls)"

section \<open>Concrete hosts and settings\<close>

text \<open>
  A project where every probe runs and finds nothing to object to, no write fails and
  no environment variable is set; the examples below vary it.
\<close>

definition quietHost :: host where
  "quietHost =
     \<lparr>now = 1000, writeFails = (\<lambda>f. False), numberToString = (\<lambda>q. ''?''),
      errorToString = (\<lambda>e. ''Error''),
      sh_findDesignFiles = Returned ''./api.design.md'',
      sh_testTsconfig = Returned ''false'', sh_tsc = Returned 0,
      sh_testEslint = Returned ''false'', sh_eslint = Returned 0,
      sh_grepNpmTest = Returned ''false'', sh_npmTest = Returned 0,
      sh_testCoverage = Returned ''false'', readCoverage = Returned NoPct,
      sh_npmAudit = Returned 0, sh_testChangelog = Returned ''true''\<rparr>"

definition defaultSettings :: settings where
  "defaultSettings =
     \<lparr>ENABLE_QUALITY_GATE = None, QUALITY_GATE_STRICT = None,
      QUALITY_GATE_COVERAGE_THRESHOLD = None\<rparr>"

definition strictSettings :: settings where
  "strictSettings = defaultSettings\<lparr>QUALITY_GATE_STRICT := Some ''true''\<rparr>"

text \<open>Settings with the coverage threshold configured as 90.\<close>

definition ninetySettings :: settings where
  "ninetySettings = defaultSettings\<lparr>QUALITY_GATE_COVERAGE_THRESHOLD := Some ''90''\<rparr>"

text \<open>A project without design files, and the tracker once the design phase has begun.\<close>

definition noDesignHost :: host where
  "noDesignHost = quietHost\<lparr>sh_findDesignFiles := Returned []\<rparr>"

definition designState :: state where
  "designState = setCurrentPhase 0 ''design'' initialState"

text \<open>
  A project whose tests run and whose coverage summary reports \<open>c\<close> percent of lines;
  one whose audit command cannot be run; one whose coverage summary cannot be read.
\<close>

definition coverageHost :: "rat \<Rightarrow> host" where
  "coverageHost c =
     quietHost\<lparr>sh_grepNpmTest := Returned (''true'' @ [CHR 0x0A]), sh_npmTest := Returned 0,
               sh_testCoverage := Returned (''true'' @ [CHR 0x0A]),
               readCoverage := Returned (Pct c)\<rparr>"

definition auditMissingHost :: host where
  "auditMissingHost = quietHost\<lparr>sh_npmAudit := Threw ''npm: command not found''\<rparr>"

definition unreadableCoverageHost :: host where
  "unreadableCoverageHost =
     quietHost\<lparr>sh_testCoverage := Returned (''true'' @ [CHR 0x0A]),
               readCoverage := Threw ''ShellError: Failed with exit code 1''\<rparr>"

text \<open>
  A project with no configuration at all, where the compiler, the linter, the test
  suite and the coverage read would all fail if they were run.
\<close>

definition unconfiguredHost :: host where
  "unconfiguredHost =
     quietHost\<lparr>sh_tsc := Threw ''npx: not found'', sh_eslint := Threw ''npx: not found'',
               sh_npmTest := Threw ''npm: not found'',
               readCoverage := Threw ''ShellError: Failed with exit code 1''\<rparr>"

text \<open>Hosts on which the append to one of the two logs fails.\<close>

definition transitionsFullHost :: host where
  "transitionsFullHost = quietHost\<lparr>writeFails := (\<lambda>f. f = TransitionsLog)\<rparr>"

definition gateLogFullHost :: host where
  "gateLogFullHost = noDesignHost\<lparr>writeFails := (\<lambda>f. f = GateLogFile)\<rparr>"




definition constructorTransition :: WorkflowTransition where
  "constructorTransition =
     \<lparr>t_timestamp = 1000, t_from = None, t_to = ''constructor'', t_duration = 0,
      t_filesModified = Some []\<rparr>"

text \<open>The log of two transitions, design and then implement with two files changed.\<close>

definition scenarioLog :: "WorkflowTransition list" where
  "scenarioLog =
     [\<lparr>t_timestamp = 1000, t_from = None, t_to = ''design'', t_duration = 0,
       t_filesModified = Some []\<rparr>,
      \<lparr>t_timestamp = 2000, t_from = Some ''design'', t_to = ''implement'', t_duration = 1000,
       t_filesModified = Some [''a.ts'', ''b.ts'']\<rparr>]"

section \<open>The phase tracker\<close>

lemma getCurrentPhase_setPhaseCalls:
  "getCurrentPhase (setPhaseCalls calls s) =
     (if calls = [] then getCurrentPhase s else Some (snd (last calls)))"
  by (induction calls arbitrary: s) (auto simp: getCurrentPhase_def setCurrentPhase_def)

text \<open>
  Claim C9, as the code has it: after any run of \<^verbatim>\<open>setCurrentPhase\<close> calls from the
  initial state, \<^verbatim>\<open>getCurrentPhase\<close> returns the argument of the last call; when there
  was no call it returns \<^verbatim>\<open>null\<close> (\<open>None\<close>), not a string.
\<close>

theorem getPhase_latest:
  "getCurrentPhase (setPhaseCalls calls initialState) =
     (if calls = [] then None else Some (snd (last calls)))"
  by (simp add: getCurrentPhase_setPhaseCalls) (simp add: getCurrentPhase_def initialState_def)

theorem getPhase_latest_witness:
  "getCurrentPhase (setPhaseCalls [(1, ''design''), (2, ''test'')] initialState) = Some ''test''"
  using getPhase_latest [of "[(1, ''design''), (2, ''test'')]"] by simp

text \<open>
  Claim C9 as stated fails: with no call made, the result is not the string
  \<^verbatim>\<open>"none"\<close>.
\<close>

theorem getPhase_none_counterexample:
  "getCurrentPhase (setPhaseCalls [] initialState) \<noteq> Some ''none''"
  by (simp add: getCurrentPhase_def initialState_def)

section \<open>The track-phase tool: validation\<close>

lemma join_validPhases:
  "join '', '' validPhases = ''plan, design, implement, test, review, release, operate''"
  by (simp add: validPhases_def)

text \<open>
  Claim C8, as the code has it: an argument that is none of the seven legal names in
  any letter case is answered with the message that lists the legal names, and the
  state (log, current phase, pending files) is the one before the call.
\<close>

theorem trackPhase_rejects:
  assumes "toLowerCase phase \<notin> set validPhases"
  shows "trackPhase h phase s =
           (Inr (crossMark @ '' Invalid phase: '' @ phase @
                 ''. Must be one of: plan, design, implement, test, review, release, operate''), s)"
  using assms by (simp add: trackPhase_def invalidPhaseMessage_def join_validPhases)

theorem trackPhase_rejects_witness:
  "toLowerCase ''deploy'' \<notin> set validPhases \<and>
   trackPhase quietHost ''deploy'' initialState =
     (Inr (crossMark @
           '' Invalid phase: deploy. Must be one of: plan, design, implement, test, review, release, operate''),
      initialState)"
proof -
  have h: "toLowerCase ''deploy'' \<notin> set validPhases"
    by (simp add: toLowerCase_def toLowerChar_def validPhases_def)
  show ?thesis using h trackPhase_rejects [OF h, of quietHost initialState] by simp
qed

text \<open>
  Claim C8 as stated fails: \<^verbatim>\<open>"IMPLEMENT"\<close> is not one of the seven legal names, yet
  the tool accepts it and changes the current phase.
\<close>

theorem trackPhase_rejects_counterexample:
  "''IMPLEMENT'' \<notin> set validPhases \<and>
   fst (trackPhase quietHost ''IMPLEMENT'' initialState) =
     Inr (checkMark @ '' Transitioned to IMPLEMENT phase'') \<and>
   currentPhase (snd (trackPhase quietHost ''IMPLEMENT'' initialState)) = Some ''IMPLEMENT'' \<and>
   currentPhase initialState = None"
  by (simp add: validPhases_def trackPhase_def toLowerCase_def toLowerChar_def
      initializeWorkflowState_def logTransition_def quietHost_def initialState_def
      getCurrentPhase_def getFilesModified_def setCurrentPhase_def clearModifiedFiles_def
      transitionedMessage_def)

section \<open>Letter case and the gate lookup\<close>

lemma toLowerCase_append: "toLowerCase (a @ b) = toLowerCase a @ toLowerCase b"
  by (simp add: toLowerCase_def)

lemma length_toLowerCase: "length (toLowerCase a) = length a"
  by (simp add: toLowerCase_def)

lemma toLowerCase_arrow: "toLowerCase arrow = arrow"
  by (simp add: toLowerCase_def toLowerChar_def arrow_def)

lemma toLowerCase_gateKeys: "k \<in> set gateKeys \<Longrightarrow> toLowerCase k = k"
  by (auto simp: gateKeys_def toLowerCase_def toLowerChar_def arrow_def)

lemma toLowerCase_validPhases: "p \<in> set validPhases \<Longrightarrow> toLowerCase p = p"
  by (auto simp: validPhases_def toLowerCase_def toLowerChar_def)

text \<open>No key the plugin builds names a member inherited by \<^verbatim>\<open>gates\<close>.\<close>

lemma transitionKey_not_inherited: "transitionKey a b \<notin> set objectPrototypeKeys"
proof
  assume "transitionKey a b \<in> set objectPrototypeKeys"
  moreover have "CHR 0xE2 \<in> set (transitionKey a b)"
    by (simp add: transitionKey_def arrow_def)
  ultimately show False
    by (auto simp: objectPrototypeKeys_def)
qed

lemma validateGate_noGate:
  "k \<notin> set gateKeys \<Longrightarrow> validateGate h threshold k = gateResult h k True (noGateMessage k)"
  by (simp add: validateGate_def gateKeys_def)

lemma transitionKey_lower_left:
  assumes "transitionKey p q \<in> set gateKeys"
  shows "toLowerCase p = p"
proof -
  have "toLowerCase (transitionKey p q) = transitionKey p q"
    using assms by (rule toLowerCase_gateKeys)
  then have "toLowerCase p @ (arrow @ toLowerCase q) = p @ (arrow @ q)"
    by (simp add: transitionKey_def toLowerCase_append toLowerCase_arrow)
  then show ?thesis
    by (simp add: append_eq_append_conv length_toLowerCase)
qed

lemma transitionKey_lower_right:
  assumes "transitionKey q p \<in> set gateKeys"
  shows "toLowerCase p = p"
proof -
  have "toLowerCase (transitionKey q p) = transitionKey q p"
    using assms by (rule toLowerCase_gateKeys)
  then have "(toLowerCase q @ arrow) @ toLowerCase p = (q @ arrow) @ p"
    by (simp add: transitionKey_def toLowerCase_append toLowerCase_arrow)
  then show ?thesis
    by (metis append_eq_append_conv length_toLowerCase)
qed

lemma case_variant_no_gate:
  assumes "toLowerCase phase \<in> set validPhases" and "phase \<notin> set validPhases"
  shows "transitionKey phase other \<notin> set gateKeys"
    and "transitionKey other phase \<notin> set gateKeys"
  using assms transitionKey_lower_left [of phase other] transitionKey_lower_right [of other phase]
  by auto

lemma trackPhase_accepts:
  assumes "toLowerCase phase \<in> set validPhases"
    and "\<not> writeFails h WorkflowDir" and "\<not> writeFails h TransitionsLog"
  shows "trackPhase h phase s =
           (Inr (transitionedMessage phase (currentPhase s)),
            s\<lparr>currentPhase := Some phase, phaseStartTime := Some (now h), filesModified := [],
              workflowDirExists := True,
              transitionsFile := Some (transitionLines s @
                [Parsed \<lparr>t_timestamp = now h, t_from = currentPhase s, t_to = phase,
                         t_duration = (case phaseStartTime s of
                                         Some started \<Rightarrow> now h - started
                                       | None \<Rightarrow> 0),
                         t_filesModified = Some (filesModified s)\<rparr>])\<rparr>)"
  using assms
  by (simp add: trackPhase_def initializeWorkflowState_def logTransition_def getCurrentPhase_def
      getFilesModified_def setCurrentPhase_def clearModifiedFiles_def transitionLines_def Let_def)

text \<open>
  Claim C10: the tool tests its argument in lower case and stores it as given. For an
  argument that is a legal name in another letter case, and writes that succeed, the
  call confirms the transition, the current phase is the argument verbatim, the line
  added to the log has the argument verbatim as its target, and a transition key with
  that phase on either side is no key of a gate: the evaluator answers with the
  passing "no quality gate defined" result.
\<close>

theorem case_insensitive_verbatim:
  assumes "toLowerCase phase \<in> set validPhases" and "phase \<notin> set validPhases"
    and "\<not> writeFails h WorkflowDir" and "\<not> writeFails h TransitionsLog"
  shows "fst (trackPhase h phase s) = Inr (transitionedMessage phase (currentPhase s)) \<and>
         getCurrentPhase (snd (trackPhase h phase s)) = Some phase \<and>
         transitionLines (snd (trackPhase h phase s)) =
           transitionLines s @
             [Parsed \<lparr>t_timestamp = now h, t_from = currentPhase s, t_to = phase,
                      t_duration = (case phaseStartTime s of
                                      Some started \<Rightarrow> now h - started
                                    | None \<Rightarrow> 0),
                      t_filesModified = Some (filesModified s)\<rparr>] \<and>
         validateGate h' threshold (transitionKey phase other) =
           gateResult h' (transitionKey phase other) True (noGateMessage (transitionKey phase other)) \<and>
         validateGate h' threshold (transitionKey other phase) =
           gateResult h' (transitionKey other phase) True (noGateMessage (transitionKey other phase))"
  using trackPhase_accepts [OF assms(1,3,4), of s] case_variant_no_gate [OF assms(1,2), of other]
  by (simp add: validateGate_noGate getCurrentPhase_def transitionLines_def)

theorem case_insensitive_verbatim_witness:
  "toLowerCase ''IMPLEMENT'' \<in> set validPhases \<and> ''IMPLEMENT'' \<notin> set validPhases \<and>
   \<not> writeFails quietHost WorkflowDir \<and> \<not> writeFails quietHost TransitionsLog \<and>
   getCurrentPhase
     (snd (trackPhase quietHost ''IMPLEMENT'' (setCurrentPhase 0 ''design'' initialState))) =
     Some ''IMPLEMENT'' \<and>
   passed (validateGate quietHost (Finite 80) (transitionKey ''IMPLEMENT'' ''test'')) \<and>
   message (validateGate quietHost (Finite 80) (transitionKey ''IMPLEMENT'' ''test'')) =
     infoMark @ ''  No quality gate defined for transition: IMPLEMENT'' @ arrow @ ''test''"
proof -
  have a: "toLowerCase ''IMPLEMENT'' \<in> set validPhases"
    by (simp add: toLowerCase_def toLowerChar_def validPhases_def)
  have b: "''IMPLEMENT'' \<notin> set validPhases" by (simp add: validPhases_def)
  have c: "\<not> writeFails quietHost WorkflowDir" by (simp add: quietHost_def)
  have d: "\<not> writeFails quietHost TransitionsLog" by (simp add: quietHost_def)
  show ?thesis
    using a b c d
      case_insensitive_verbatim [OF a b c d, of "setCurrentPhase 0 ''design'' initialState"
        quietHost "Finite 80" "''test''"]
    by (simp add: gateResult_def noGateMessage_def transitionKey_def)
qed

section \<open>Enforcement modes\<close>

lemma takeWhile_upto: "x \<notin> set a \<Longrightarrow> takeWhile (\<lambda>y. y \<noteq> x) (a @ x # r) = a"
  by (induction a) auto

lemma arrow_split:
  assumes eq: "a @ arrow @ b = c @ arrow @ d"
    and c: "CHR 0xE2 \<notin> set c" and d: "CHR 0xE2 \<notin> set d"
  shows "a = c \<and> b = d"
proof -
  let ?f = "filter (\<lambda>x. x = CHR 0xE2)"
  have fc: "?f c = []" and fd: "?f d = []"
    using c d by (auto simp: filter_empty_conv)
  have "?f (a @ arrow @ b) = ?f (c @ arrow @ d)" using eq by simp
  then have "?f a @ [CHR 0xE2] @ ?f b = [CHR 0xE2]"
    using fc fd by (simp add: arrow_def)
  then have "?f a = []"
    by (cases "?f a") auto
  then have a: "CHR 0xE2 \<notin> set a"
    by (auto simp: filter_empty_conv)
  have "takeWhile (\<lambda>x. x \<noteq> CHR 0xE2) (a @ arrow @ b) = a"
    using a by (simp add: takeWhile_upto arrow_def)
  moreover have "takeWhile (\<lambda>x. x \<noteq> CHR 0xE2) (c @ arrow @ d) = c"
    using c by (simp add: takeWhile_upto arrow_def)
  ultimately have "a = c" using eq by simp
  with eq show ?thesis by (simp add: arrow_def)
qed

lemma gateKey_phases:
  assumes "transitionKey cur nxt \<in> set gateKeys"
  shows "(cur, nxt) \<in> set nextPhases"
proof -
  from assms consider
      "cur @ arrow @ nxt = ''design'' @ arrow @ ''implement''"
    | "cur @ arrow @ nxt = ''implement'' @ arrow @ ''test''"
    | "cur @ arrow @ nxt = ''test'' @ arrow @ ''review''"
    | "cur @ arrow @ nxt = ''review'' @ arrow @ ''release''"
    by (auto simp: gateKeys_def transitionKey_def)
  then show ?thesis
  proof cases
    case 1
    from arrow_split [OF 1] show ?thesis by (simp add: nextPhases_def)
  next
    case 2
    from arrow_split [OF 2] show ?thesis by (simp add: nextPhases_def)
  next
    case 3
    from arrow_split [OF 3] show ?thesis by (simp add: nextPhases_def)
  next
    case 4
    from arrow_split [OF 4] show ?thesis by (simp add: nextPhases_def)
  qed
qed

lemma failing_gate_key:
  assumes "\<not> passed (validateGate h threshold k)"
  shows "k \<in> set gateKeys"
proof (rule ccontr)
  assume "k \<notin> set gateKeys"
  then have "validateGate h threshold k = gateResult h k True (noGateMessage k)"
    by (simp add: validateGate_def gateKeys_def)
  with assms show False by (simp add: gateResult_def)
qed

lemma nextPhases_valid: "(cur, nxt) \<in> set nextPhases \<Longrightarrow> toLowerCase nxt \<in> set validPhases"
  by (auto simp: nextPhases_def validPhases_def toLowerCase_def toLowerChar_def)


lemma logGateCheck_tracker:
  "currentPhase (logGateCheck h entry s) = currentPhase s"
  "phaseStartTime (logGateCheck h entry s) = phaseStartTime s"
  "filesModified (logGateCheck h entry s) = filesModified s"
  "transitionsFile (logGateCheck h entry s) = transitionsFile s"
  "workflowDirExists (logGateCheck h entry s) = workflowDirExists s"
  by (simp_all add: logGateCheck_def notifier_show_def)

lemma notifier_show_tracker:
  "currentPhase (notifier_show v m s) = currentPhase s"
  "phaseStartTime (notifier_show v m s) = phaseStartTime s"
  "filesModified (notifier_show v m s) = filesModified s"
  "transitionsFile (notifier_show v m s) = transitionsFile s"
  "workflowDirExists (notifier_show v m s) = workflowDirExists s"
  "gateLogFile (notifier_show v m s) = gateLogFile s"
  by (simp_all add: notifier_show_def)

lemma hook_track_phase:
  assumes "currentPhase s = Some cur" and "cur \<noteq> []" and "nxt \<noteq> []"
  shows "tool_execute_before cfg h ''track-phase'' \<lparr>arg_phase = Some nxt, arg_file_path = fp, arg_path = pa\<rparr> s =
           (let key = transitionKey cur nxt;
                result = validateGate h (coverageThreshold cfg) key;
                s2 = logGateCheck h (gateLogEntry cfg key result) s
            in if passed result then (Inr (), s2)
               else if strictMode cfg then (Inl (GateBlocked (blockedMessage (message result))), s2)
               else (Inr (), notifier_show WarningToast (''Quality Gate Warning: '' @ message result) s2))"
  using assms
  by (simp add: tool_execute_before_def getCurrentPhase_def gateLogEntry_def Let_def)

text \<open>
  Claim C1: the plugin is enabled, a phase is current, and the gate of the requested
  transition fails. In warning mode the hook returns, and (the directory and the log
  being writable) the tool confirms the transition and the current phase is the
  target. In strict mode the request raises the blocking error with the gate's
  message, \<^verbatim>\<open>setCurrentPhase\<close> is not run: the current phase, its start time, the
  pending files and the transition log are as before.
\<close>

theorem enforcement_modes:
  assumes en: "enabled cfg"
    and cur: "currentPhase s = Some cur" "cur \<noteq> []" "nxt \<noteq> []"
    and fail: "\<not> passed (validateGate h (coverageThreshold cfg) (transitionKey cur nxt))"
  shows "(\<not> strictMode cfg \<and> \<not> writeFails h WorkflowDir \<and> \<not> writeFails h TransitionsLog \<longrightarrow>
            fst (requestTrackPhase cfg h nxt s) = Inr (transitionedMessage nxt (Some cur)) \<and>
            currentPhase (snd (requestTrackPhase cfg h nxt s)) = Some nxt) \<and>
         (strictMode cfg \<longrightarrow>
            fst (requestTrackPhase cfg h nxt s) =
              Inl (GateBlocked (blockedMessage
                     (message (validateGate h (coverageThreshold cfg) (transitionKey cur nxt))))) \<and>
            currentPhase (snd (requestTrackPhase cfg h nxt s)) = Some cur \<and>
            phaseStartTime (snd (requestTrackPhase cfg h nxt s)) = phaseStartTime s \<and>
            filesModified (snd (requestTrackPhase cfg h nxt s)) = filesModified s \<and>
            transitionsFile (snd (requestTrackPhase cfg h nxt s)) = transitionsFile s)"
proof -
  let ?key = "transitionKey cur nxt"
  let ?result = "validateGate h (coverageThreshold cfg) ?key"
  let ?s2 = "logGateCheck h (gateLogEntry cfg ?key ?result) s"
  let ?s3 = "notifier_show WarningToast (''Quality Gate Warning: '' @ message ?result) ?s2"
  have hook: "qualityGate_before cfg h ''track-phase''
                \<lparr>arg_phase = Some nxt, arg_file_path = None, arg_path = None\<rparr> s =
              (if strictMode cfg then (Inl (GateBlocked (blockedMessage (message ?result))), ?s2)
               else (Inr (), ?s3))"
    using en fail hook_track_phase [OF cur, of cfg h None None]
    by (simp add: qualityGate_before_def Let_def)
  have valid: "toLowerCase nxt \<in> set validPhases"
    using fail failing_gate_key gateKey_phases nextPhases_valid by blast
  have strict: "strictMode cfg \<Longrightarrow> requestTrackPhase cfg h nxt s =
                  (Inl (GateBlocked (blockedMessage (message ?result))), ?s2)"
    by (simp add: requestTrackPhase_def hook)
  have warn: "\<not> strictMode cfg \<Longrightarrow> requestTrackPhase cfg h nxt s = trackPhase h nxt ?s3"
    by (simp add: requestTrackPhase_def hook)
  have s3: "currentPhase ?s3 = Some cur"
    by (simp add: notifier_show_tracker logGateCheck_tracker cur)
  show ?thesis
  proof (intro conjI impI)
    assume a: "\<not> strictMode cfg \<and> \<not> writeFails h WorkflowDir \<and> \<not> writeFails h TransitionsLog"
    then have tp: "requestTrackPhase cfg h nxt s = trackPhase h nxt ?s3" using warn by simp
    from a show "fst (requestTrackPhase cfg h nxt s) = Inr (transitionedMessage nxt (Some cur))"
      unfolding tp using trackPhase_accepts [OF valid, of h ?s3] s3 by simp
    from a show "currentPhase (snd (requestTrackPhase cfg h nxt s)) = Some nxt"
      unfolding tp using trackPhase_accepts [OF valid, of h ?s3] by simp
  next
    assume a: "strictMode cfg"
    show "fst (requestTrackPhase cfg h nxt s) = Inl (GateBlocked (blockedMessage (message ?result)))"
      by (simp add: strict [OF a])
    show "currentPhase (snd (requestTrackPhase cfg h nxt s)) = Some cur"
      by (simp add: strict [OF a] logGateCheck_tracker cur)
    show "phaseStartTime (snd (requestTrackPhase cfg h nxt s)) = phaseStartTime s"
      by (simp add: strict [OF a] logGateCheck_tracker)
    show "filesModified (snd (requestTrackPhase cfg h nxt s)) = filesModified s"
      by (simp add: strict [OF a] logGateCheck_tracker)
    show "transitionsFile (snd (requestTrackPhase cfg h nxt s)) = transitionsFile s"
      by (simp add: strict [OF a] logGateCheck_tracker)
  qed
qed

lemma noDesign_fails:
  "\<not> passed (validateGate noDesignHost t (transitionKey ''design'' ''implement''))"
  "message (validateGate noDesignHost t (transitionKey ''design'' ''implement'')) =
     crossMark @ '' No design files found. Create design specifications before implementing.''"
  by (simp_all add: validateGate_def transitionKey_def gate_design_implement_def noDesignHost_def
      quietHost_def trim_def gateResult_def)

text \<open>The scenario of C1: no design file, design to implement, in both modes.\<close>

theorem enforcement_modes_witness:
  "enabled defaultSettings \<and> \<not> strictMode defaultSettings \<and> strictMode strictSettings \<and>
   enabled strictSettings \<and> currentPhase designState = Some ''design'' \<and>
   \<not> passed (validateGate noDesignHost (coverageThreshold defaultSettings)
                (transitionKey ''design'' ''implement'')) \<and>
   fst (requestTrackPhase defaultSettings noDesignHost ''implement'' designState) =
     Inr (checkMark @ '' Transitioned to implement phase from design'') \<and>
   currentPhase (snd (requestTrackPhase defaultSettings noDesignHost ''implement'' designState)) =
     Some ''implement'' \<and>
   fst (requestTrackPhase strictSettings noDesignHost ''implement'' designState) =
     Inl (GateBlocked (''Quality gate failed: '' @ crossMark @
            '' No design files found. Create design specifications before implementing.'' @
            [CHR 0x0A, CHR 0x0A] @ ''Transition blocked. Fix the issues and try again.'')) \<and>
   currentPhase (snd (requestTrackPhase strictSettings noDesignHost ''implement'' designState)) =
     Some ''design''"
proof -
  have e1: "enabled defaultSettings" and e2: "enabled strictSettings"
    by (simp_all add: enabled_def defaultSettings_def strictSettings_def)
  have m1: "\<not> strictMode defaultSettings" and m2: "strictMode strictSettings"
    by (simp_all add: strictMode_def defaultSettings_def strictSettings_def)
  have c: "currentPhase designState = Some ''design''"
    by (simp add: designState_def setCurrentPhase_def)
  have w: "\<not> writeFails noDesignHost WorkflowDir" "\<not> writeFails noDesignHost TransitionsLog"
    by (simp_all add: noDesignHost_def quietHost_def)
  note f = noDesign_fails
  show ?thesis
    using e1 e2 m1 m2 c w f(1) [of "coverageThreshold defaultSettings"]
      enforcement_modes [OF e1 c _ _ f(1)]
      enforcement_modes [OF e2 c _ _ f(1)]
    by (simp add: f(2) transitionedMessage_def blockedMessage_def)
qed


section \<open>The gate log\<close>

lemma trackModification_tracker:
  "currentPhase (trackModification h args s) = currentPhase s"
  "gateLogFile (trackModification h args s) = gateLogFile s"
  by (simp_all add: trackModification_def notifier_show_def Let_def split: option.splits)

lemma gateLogLines_logGateCheck:
  "gateLogLines (logGateCheck h entry s) =
     (if writeFails h GateLogFile then gateLogLines s else gateLogLines s @ [Parsed entry])"
  by (simp add: logGateCheck_def gateLogLines_def notifier_show_def)

lemma gateLogLines_cong: "gateLogFile s' = gateLogFile s \<Longrightarrow> gateLogLines s' = gateLogLines s"
  by (simp add: gateLogLines_def)


lemma hook_other_tool:
  "tool \<noteq> ''track-phase'' \<Longrightarrow>
   gateLogFile (snd (tool_execute_before cfg h tool args s)) = gateLogFile s"
  by (simp add: tool_execute_before_def trackModification_tracker)

lemma hook_skips:
  assumes "currentPhase s = None \<or> currentPhase s = Some [] \<or> arg_phase args = None \<or> arg_phase args = Some []"
  shows "tool_execute_before cfg h ''track-phase'' args s = (Inr (), s)"
  using assms
  by (cases "currentPhase s"; cases "arg_phase args")
     (simp_all add: tool_execute_before_def getCurrentPhase_def)

lemma hook_runs:
  assumes "currentPhase s = Some cur" and "cur \<noteq> []" and "arg_phase args = Some nxt" and "nxt \<noteq> []"
  shows "snd (tool_execute_before cfg h ''track-phase'' args s) =
           (let key = transitionKey cur nxt;
                result = validateGate h (coverageThreshold cfg) key;
                s2 = logGateCheck h (gateLogEntry cfg key result) s
            in if \<not> passed result \<and> \<not> strictMode cfg
               then notifier_show WarningToast (''Quality Gate Warning: '' @ message result) s2
               else s2)"
  using assms
  by (simp add: tool_execute_before_def getCurrentPhase_def gateLogEntry_def Let_def)

lemma hook_appended:
  "appendedGateLines s (snd (tool_execute_before cfg h tool args s)) = [] \<or>
   (\<exists>key. appendedGateLines s (snd (tool_execute_before cfg h tool args s)) =
      [Parsed (gateLogEntry cfg key (validateGate h (coverageThreshold cfg) key))])"
proof (cases "tool = ''track-phase''")
  case False
  then show ?thesis
    by (simp add: appendedGateLines_def gateLogLines_cong [OF hook_other_tool])
next
  case True
  show ?thesis
  proof (cases "currentPhase s = None \<or> currentPhase s = Some [] \<or>
                arg_phase args = None \<or> arg_phase args = Some []")
    case True
    with hook_skips [OF True] \<open>tool = ''track-phase''\<close> show ?thesis
      by (simp add: appendedGateLines_def)
  next
    case False
    then obtain cur nxt where c: "currentPhase s = Some cur" "cur \<noteq> []"
      and n: "arg_phase args = Some nxt" "nxt \<noteq> []"
      by auto
    show ?thesis
      unfolding \<open>tool = ''track-phase''\<close> hook_runs [OF c n]
      by (auto simp: appendedGateLines_def gateLogLines_logGateCheck Let_def
          gateLogLines_cong [OF notifier_show_tracker(6)])
  qed
qed


lemma hook_passed_mode_independent:
  assumes "coverageThreshold cfg' = coverageThreshold cfg"
  shows "map linePassed (appendedGateLines s (snd (tool_execute_before cfg' h tool args s))) =
         map linePassed (appendedGateLines s (snd (tool_execute_before cfg h tool args s)))"
proof (cases "tool = ''track-phase''")
  case False
  then show ?thesis
    by (simp add: appendedGateLines_def gateLogLines_cong [OF hook_other_tool])
next
  case True
  show ?thesis
  proof (cases "currentPhase s = None \<or> currentPhase s = Some [] \<or>
                arg_phase args = None \<or> arg_phase args = Some []")
    case True
    with hook_skips [OF True] \<open>tool = ''track-phase''\<close> show ?thesis
      by (simp add: appendedGateLines_def)
  next
    case False
    then obtain cur nxt where c: "currentPhase s = Some cur" "cur \<noteq> []"
      and n: "arg_phase args = Some nxt" "nxt \<noteq> []"
      by auto
    show ?thesis
      unfolding \<open>tool = ''track-phase''\<close> hook_runs [OF c n] assms
      by (simp add: appendedGateLines_def gateLogLines_logGateCheck Let_def linePassed_def
          gateLogLines_cong [OF notifier_show_tracker(6)] gateLogEntry_def)
  qed
qed

lemma gateLogEntry_invariant:
  "log_blocked (gateLogEntry cfg key result) \<longleftrightarrow>
     \<not> log_passed (gateLogEntry cfg key result) \<and> log_mode (gateLogEntry cfg key result) = Strict"
  by (simp add: gateLogEntry_def)

lemma trackPhase_gateLog: "gateLogFile (snd (trackPhase h phase s)) = gateLogFile s"
  by (simp add: trackPhase_def initializeWorkflowState_def logTransition_def setCurrentPhase_def
      clearModifiedFiles_def Let_def)

lemma generateQualityReport_gateLog: "gateLogFile (snd (generateQualityReport h s)) = gateLogFile s"
  by (simp add: generateQualityReport_def notifier_show_def Let_def split: option.splits sum.splits)

lemma event_gateLog: "gateLogFile (qualityGate_event cfg h evtType s) = gateLogFile s"
  by (simp add: qualityGate_event_def event_def generateQualityReport_gateLog notifier_show_def
      Let_def split: option.splits)

text \<open>
  Claim C5: every line a call of the hook adds to the gate log is a record whose
  \<open>blocked\<close> is true exactly when \<open>passed\<close> is false and the mode is strict; the same
  call under settings that differ only in \<^verbatim>\<open>QUALITY_GATE_STRICT\<close> adds records with
  the same \<open>passed\<close>; and neither the tool nor the event hook writes to the gate log.
\<close>

theorem gate_log_records:
  "(\<forall>l \<in> set (appendedGateLines s (snd (qualityGate_before cfg h tool args s))).
      \<exists>g. l = Parsed g \<and> (log_blocked g \<longleftrightarrow> \<not> log_passed g \<and> log_mode g = Strict)) \<and>
   map linePassed
     (appendedGateLines s (snd (qualityGate_before (cfg\<lparr>QUALITY_GATE_STRICT := m\<rparr>) h tool args s))) =
   map linePassed (appendedGateLines s (snd (qualityGate_before cfg h tool args s))) \<and>
   gateLogFile (snd (trackPhase h phase s)) = gateLogFile s \<and>
   gateLogFile (qualityGate_event cfg h evtType s) = gateLogFile s"
proof (intro conjI)
  show "\<forall>l \<in> set (appendedGateLines s (snd (qualityGate_before cfg h tool args s))).
          \<exists>g. l = Parsed g \<and> (log_blocked g \<longleftrightarrow> \<not> log_passed g \<and> log_mode g = Strict)"
  proof (cases "enabled cfg")
    case True
    then show ?thesis
      using hook_appended [of s cfg h tool args] gateLogEntry_invariant
      by (auto simp: qualityGate_before_def)
  next
    case False
    then show ?thesis by (simp add: qualityGate_before_def appendedGateLines_def)
  qed
  have "coverageThreshold (cfg\<lparr>QUALITY_GATE_STRICT := m\<rparr>) = coverageThreshold cfg"
    by (simp add: coverageThreshold_def)
  moreover have "enabled (cfg\<lparr>QUALITY_GATE_STRICT := m\<rparr>) = enabled cfg"
    by (simp add: enabled_def)
  ultimately show "map linePassed
     (appendedGateLines s (snd (qualityGate_before (cfg\<lparr>QUALITY_GATE_STRICT := m\<rparr>) h tool args s))) =
     map linePassed (appendedGateLines s (snd (qualityGate_before cfg h tool args s)))"
    using hook_passed_mode_independent [of "cfg\<lparr>QUALITY_GATE_STRICT := m\<rparr>" cfg s h tool args]
    by (simp add: qualityGate_before_def)
  show "gateLogFile (snd (trackPhase h phase s)) = gateLogFile s" by (rule trackPhase_gateLog)
  show "gateLogFile (qualityGate_event cfg h evtType s) = gateLogFile s" by (rule event_gateLog)
qed

theorem gate_log_records_witness:
  "appendedGateLines designState
     (snd (qualityGate_before strictSettings noDesignHost ''track-phase''
             \<lparr>arg_phase = Some ''implement'', arg_file_path = None, arg_path = None\<rparr> designState)) =
     [Parsed \<lparr>log_transition = ''design'' @ arrow @ ''implement'', log_passed = False,
              log_message = crossMark @
                '' No design files found. Create design specifications before implementing.'',
              log_timestamp = 1000, log_mode = Strict, log_blocked = True\<rparr>] \<and>
   map linePassed
     (appendedGateLines designState
        (snd (qualityGate_before (strictSettings\<lparr>QUALITY_GATE_STRICT := None\<rparr>) noDesignHost
                ''track-phase''
                \<lparr>arg_phase = Some ''implement'', arg_file_path = None, arg_path = None\<rparr>
                designState))) = [Some False]"
proof -
  have e: "enabled strictSettings" and m: "strictMode strictSettings"
    by (simp_all add: enabled_def strictMode_def strictSettings_def defaultSettings_def)
  have c: "currentPhase designState = Some ''design''"
    by (simp add: designState_def setCurrentPhase_def)
  have w: "\<not> writeFails noDesignHost GateLogFile"
    by (simp add: noDesignHost_def quietHost_def)
  have n: "now noDesignHost = 1000" by (simp add: noDesignHost_def quietHost_def)
  have g: "gateLogLines designState = []"
    by (simp add: gateLogLines_def designState_def setCurrentPhase_def initialState_def)
  have first: "appendedGateLines designState
     (snd (qualityGate_before strictSettings noDesignHost ''track-phase''
             \<lparr>arg_phase = Some ''implement'', arg_file_path = None, arg_path = None\<rparr> designState)) =
     [Parsed \<lparr>log_transition = ''design'' @ arrow @ ''implement'', log_passed = False,
              log_message = crossMark @
                '' No design files found. Create design specifications before implementing.'',
              log_timestamp = 1000, log_mode = Strict, log_blocked = True\<rparr>]"
    using e m w n g noDesign_fails [of "coverageThreshold strictSettings"]
      hook_track_phase [OF c, of "''implement''" strictSettings noDesignHost None None]
    by (simp add: qualityGate_before_def appendedGateLines_def gateLogLines_logGateCheck
        gateLogEntry_def Let_def)
       (simp add: validateGate_def transitionKey_def gate_design_implement_def gateResult_def
        noDesignHost_def quietHost_def trim_def)
  show ?thesis
    using first
      gate_log_records [of designState strictSettings noDesignHost "''track-phase''"
        "\<lparr>arg_phase = Some ''implement'', arg_file_path = None, arg_path = None\<rparr>" None]
    by (simp add: linePassed_def)
qed

section \<open>The coverage threshold\<close>

lemma parseInt_80: "parseInt ''80'' = Finite 80"
  by (simp add: parseInt_def isSpace_def digitOf_def toDouble_def wideSpaces_def Let_def)

text \<open>White space outside ASCII is skipped, and a value past 53 bits is rounded.\<close>

lemma parseInt_nbsp: "parseInt ([CHR 0xC2, CHR 0xA0] @ ''80'') = Finite 80"
  by (simp add: parseInt_def isSpace_def digitOf_def toDouble_def wideSpaces_def Let_def)

lemma bitLength_pos: "n \<noteq> 0 \<Longrightarrow> bitLength n = Suc (bitLength (n div 2))"
  by (subst bitLength.simps) simp
lemma bitLength_0: "bitLength 0 = 0"
  by (subst bitLength.simps) simp
lemma bitLength_54: "bitLength 9007199254740993 = 54"
  by (simp add: bitLength_pos bitLength_0)
lemma parseInt_rounds: "parseInt ''9007199254740993'' = Finite 9007199254740992"
  by (simp add: parseInt_def isSpace_def digitOf_def toDouble_def wideSpaces_def bitLength_54 Let_def)

lemma digitsOf_digits: "d \<in> set (digitsOf n) \<Longrightarrow> d < 10"
  by (induction n arbitrary: d rule: digitsOf.induct) (subst (asm) digitsOf.simps, auto split: if_splits)

lemma digitsOf_value: "foldl (\<lambda>a d. a * 10 + d) 0 (digitsOf n) = n"
  by (induction n rule: digitsOf.induct) (subst digitsOf.simps, auto)

lemma digitsOf_nonempty: "digitsOf n \<noteq> []"
  by (subst digitsOf.simps) simp

lemma digitChar_digit: "d < 10 \<Longrightarrow> digitChar d \<in> set ''0123456789''"
proof -
  assume "d < 10"
  then have "d \<in> {0, 1, 2, 3, 4, 5, 6, 7, 8, 9}" by auto
  then show ?thesis by (elim insertE emptyE) (simp_all add: digitChar_def)
qed

lemma digitOf_digitChar: "d < 10 \<Longrightarrow> digitOf 10 (digitChar d) = Some d"
proof -
  assume "d < 10"
  then have "d \<in> {0, 1, 2, 3, 4, 5, 6, 7, 8, 9}" by auto
  then show ?thesis by (elim insertE emptyE) (simp_all add: digitOf_def digitChar_def)
qed

lemma digitsPrefix_digits:
  "\<forall>d \<in> set ds. d < 10 \<Longrightarrow> digitsPrefix 10 (map digitChar ds) = ds"
  by (induction ds) (simp_all add: digitOf_digitChar)

lemma plain_head:
  assumes "a \<in> set ''-0123456789''"
  shows "\<not> isSpace a" and "a \<noteq> CHR 0xC2" and "[a, b, c] \<notin> set wideSpaces"
  using assms by (auto simp: isSpace_def wideSpaces_def)

lemma skipWhiteSpace_plain:
  assumes "s \<noteq> []" and "hd s \<in> set ''-0123456789''"
  shows "skipWhiteSpace s = s"
proof (cases s rule: skipWhiteSpace.cases)
  case (1 a b c r)
  with assms(2) plain_head(1,2) [of a] plain_head(3) [of a b c] show ?thesis by simp
next
  case (2 a b)
  with assms(2) plain_head(1,2) [of a] show ?thesis by simp
next
  case (3 a)
  with assms(2) plain_head(1) [of a] show ?thesis by simp
next
  case 4
  with assms(1) show ?thesis by simp
qed

lemma toDouble_small: "n < 2 ^ 53 \<Longrightarrow> toDouble n = Some n"
  by (simp add: toDouble_def)

lemma parseInt_digits:
  assumes "ds \<noteq> []" and "\<forall>d \<in> set ds. d < 10"
    and "foldl (\<lambda>a d. a * 10 + d) 0 ds < 2 ^ 53"
  shows "parseInt (map digitChar ds) = Finite (int (foldl (\<lambda>a d. a * 10 + d) 0 ds))"
    and "parseInt (CHR ''-'' # map digitChar ds) = Finite (- int (foldl (\<lambda>a d. a * 10 + d) 0 ds))"
proof -
  let ?s = "map digitChar ds"
  have all: "\<forall>c \<in> set ?s. c \<in> set ''0123456789''"
    using assms(2) digitChar_digit by auto
  obtain a r where s: "?s = a # r" using assms(1) by (cases ?s) auto
  have a: "a \<in> set ''0123456789''" using all s by simp
  have skip: "skipWhiteSpace ?s = ?s" "skipWhiteSpace (CHR ''-'' # ?s) = CHR ''-'' # ?s"
    using a s by (simp_all add: skipWhiteSpace_plain)
  have sign: "take 1 ?s \<noteq> ''-''" "take 1 ?s \<noteq> ''+''"
    using a s by auto
  have hex: "take 2 ?s \<noteq> ''0x''" "take 2 ?s \<noteq> ''0X''"
  proof -
    show "take 2 ?s \<noteq> ''0x''"
    proof
      assume "take 2 ?s = ''0x''"
      then have "CHR ''x'' \<in> set (take 2 ?s)" by simp
      then have "CHR ''x'' \<in> set ?s" by (rule in_set_takeD)
      with all show False by auto
    qed
    show "take 2 ?s \<noteq> ''0X''"
    proof
      assume "take 2 ?s = ''0X''"
      then have "CHR ''X'' \<in> set (take 2 ?s)" by simp
      then have "CHR ''X'' \<in> set ?s" by (rule in_set_takeD)
      with all show False by auto
    qed
  qed
  have pre: "digitsPrefix 10 ?s = ds" using assms(2) by (rule digitsPrefix_digits)
  show "parseInt ?s = Finite (int (foldl (\<lambda>a d. a * 10 + d) 0 ds))"
    unfolding parseInt_def skip
    using sign hex assms(1) by (simp add: pre toDouble_small [OF assms(3)] Let_def)
  show "parseInt (CHR ''-'' # ?s) = Finite (- int (foldl (\<lambda>a d. a * 10 + d) 0 ds))"
    unfolding parseInt_def skip
    using hex assms(1) by (simp add: pre toDouble_small [OF assms(3)] Let_def)
qed

lemma parseInt_decimalText:
  assumes "\<bar>t\<bar> < 2 ^ 53"
  shows "parseInt (decimalText t) = Finite t"
proof -
  let ?ds = "digitsOf (nat \<bar>t\<bar>)"
  have v: "foldl (\<lambda>a d. a * 10 + d) 0 ?ds = nat \<bar>t\<bar>" by (rule digitsOf_value)
  have small: "foldl (\<lambda>a d. a * 10 + d) 0 ?ds < 2 ^ 53"
    using assms unfolding v by (simp add: nat_less_iff)
  have d: "\<forall>d \<in> set ?ds. d < 10" using digitsOf_digits by blast
  show ?thesis
  proof (cases "t < 0")
    case True
    then have "- int (nat \<bar>t\<bar>) = t" by simp
    with True parseInt_digits(2) [OF digitsOf_nonempty d small] show ?thesis
      by (simp only: decimalText_def v if_True append_Cons append_Nil)
  next
    case False
    then have "int (nat \<bar>t\<bar>) = t" by simp
    with False parseInt_digits(1) [OF digitsOf_nonempty d small] show ?thesis
      by (simp only: decimalText_def v if_False append_Nil)
  qed
qed

lemma decimalText_nonempty: "decimalText t \<noteq> []"
  by (simp add: decimalText_def digitsOf_nonempty)

lemma coverageThreshold_default:
  "QUALITY_GATE_COVERAGE_THRESHOLD cfg = None \<or> QUALITY_GATE_COVERAGE_THRESHOLD cfg = Some [] \<Longrightarrow>
   coverageThreshold cfg = Finite 80"
  by (auto simp: coverageThreshold_def parseInt_80)

lemma coverageThreshold_configured:
  assumes "QUALITY_GATE_COVERAGE_THRESHOLD cfg = Some (decimalText t)" and "\<bar>t\<bar> < 2 ^ 53"
  shows "coverageThreshold cfg = Finite t"
  using assms decimalText_nonempty [of t]
  by (simp add: coverageThreshold_def parseInt_decimalText)

lemma validateGate_test_review:
  "validateGate h threshold (transitionKey ''test'' ''review'') = gate_test_review h threshold"
  by (simp add: validateGate_def transitionKey_def arrow_def)

lemma gate_test_review_tests_over:
  assumes "sh_grepNpmTest h = Returned hasNpmTest"
    and "trim hasNpmTest = ''true'' \<longrightarrow> sh_npmTest h = Returned exitCode"
  shows "gate_test_review h threshold = coverageStep h threshold (''test'' @ arrow @ ''review'')"
  using assms by (auto simp: gate_test_review_def Let_def)

lemma coverageStep_reported:
  assumes "sh_testCoverage h = Returned hasCoverage" and "trim hasCoverage = ''true''"
    and "readCoverage h = Returned (Pct c)"
  shows "\<not> passed (coverageStep h threshold key) \<longleftrightarrow> belowThreshold c threshold"
  using assms by (simp add: coverageStep_def gateResult_def)

lemma coverageStep_no_file:
  assumes "sh_testCoverage h = Returned hasCoverage" and "trim hasCoverage \<noteq> ''true''"
  shows "passed (coverageStep h threshold key)"
  using assms by (simp add: coverageStep_def gateResult_def)

text \<open>
  Claim C6: in the test-to-review gate, once the test step is over (the suite is not
  configured, or \<^verbatim>\<open>npm test\<close> has resolved), a coverage summary that reports \<open>c\<close>
  fails the gate exactly when \<open>c < t\<close>, for the threshold \<open>t\<close> written in decimal into
  \<^verbatim>\<open>QUALITY_GATE_COVERAGE_THRESHOLD\<close> (any integer a double holds exactly), and
  exactly when \<open>c < 80\<close> when the variable is unset or empty; whatever the variable
  holds, the gate compares with the number \<^verbatim>\<open>parseInt\<close> reads from it; and without a
  coverage summary the gate passes.
\<close>

theorem coverage_threshold:
  assumes "sh_grepNpmTest h = Returned hasNpmTest"
    and "trim hasNpmTest = ''true'' \<longrightarrow> sh_npmTest h = Returned exitCode"
    and "sh_testCoverage h = Returned hasCoverage"
  shows "(trim hasCoverage = ''true'' \<and> readCoverage h = Returned (Pct c) \<and>
          QUALITY_GATE_COVERAGE_THRESHOLD cfg = Some (decimalText t) \<and> \<bar>t\<bar> < 2 ^ 53 \<longrightarrow>
            (\<not> passed (validateGate h (coverageThreshold cfg) (transitionKey ''test'' ''review''))
               \<longleftrightarrow> c < of_int t)) \<and>
         (trim hasCoverage = ''true'' \<and> readCoverage h = Returned (Pct c) \<and>
          (QUALITY_GATE_COVERAGE_THRESHOLD cfg = None \<or>
           QUALITY_GATE_COVERAGE_THRESHOLD cfg = Some []) \<longrightarrow>
            (\<not> passed (validateGate h (coverageThreshold cfg) (transitionKey ''test'' ''review''))
               \<longleftrightarrow> c < 80)) \<and>
         (trim hasCoverage = ''true'' \<and> readCoverage h = Returned (Pct c) \<and>
          QUALITY_GATE_COVERAGE_THRESHOLD cfg = Some v \<and> v \<noteq> [] \<longrightarrow>
            (\<not> passed (validateGate h (coverageThreshold cfg) (transitionKey ''test'' ''review''))
               \<longleftrightarrow> belowThreshold c (parseInt v))) \<and>
         (trim hasCoverage \<noteq> ''true'' \<longrightarrow>
            passed (validateGate h (coverageThreshold cfg) (transitionKey ''test'' ''review'')))"
proof -
  have gate: "validateGate h (coverageThreshold cfg) (transitionKey ''test'' ''review'') =
              coverageStep h (coverageThreshold cfg) (''test'' @ arrow @ ''review'')"
    by (simp add: validateGate_test_review gate_test_review_tests_over [OF assms(1,2)])
  show ?thesis
  proof (intro conjI impI)
    assume a: "trim hasCoverage = ''true'' \<and> readCoverage h = Returned (Pct c) \<and>
               QUALITY_GATE_COVERAGE_THRESHOLD cfg = Some (decimalText t) \<and> \<bar>t\<bar> < 2 ^ 53"
    then have "coverageThreshold cfg = Finite t"
      using coverageThreshold_configured by blast
    with a show "\<not> passed (validateGate h (coverageThreshold cfg) (transitionKey ''test'' ''review''))
                   \<longleftrightarrow> c < of_int t"
      unfolding gate using coverageStep_reported [OF assms(3), of c "Finite t"]
      by (simp add: belowThreshold_def)
  next
    assume a: "trim hasCoverage = ''true'' \<and> readCoverage h = Returned (Pct c) \<and>
               (QUALITY_GATE_COVERAGE_THRESHOLD cfg = None \<or>
                QUALITY_GATE_COVERAGE_THRESHOLD cfg = Some [])"
    then have "coverageThreshold cfg = Finite 80"
      using coverageThreshold_default by blast
    with a show "\<not> passed (validateGate h (coverageThreshold cfg) (transitionKey ''test'' ''review''))
                   \<longleftrightarrow> c < 80"
      unfolding gate using coverageStep_reported [OF assms(3), of c "Finite 80"]
      by (simp add: belowThreshold_def)
  next
    assume a: "trim hasCoverage = ''true'' \<and> readCoverage h = Returned (Pct c) \<and>
               QUALITY_GATE_COVERAGE_THRESHOLD cfg = Some v \<and> v \<noteq> []"
    then have "coverageThreshold cfg = parseInt v"
      by (simp add: coverageThreshold_def)
    with a show "\<not> passed (validateGate h (coverageThreshold cfg) (transitionKey ''test'' ''review''))
                   \<longleftrightarrow> belowThreshold c (parseInt v)"
      unfolding gate using coverageStep_reported [OF assms(3), of c "parseInt v"]
      by simp
  next
    assume "trim hasCoverage \<noteq> ''true''"
    then show "passed (validateGate h (coverageThreshold cfg) (transitionKey ''test'' ''review''))"
      unfolding gate by (rule coverageStep_no_file [OF assms(3)])
  qed
qed

text \<open>
  The instances of C6: against the default 80, 72 fails and 85 and 80 pass, as does no
  summary; against a threshold configured as 90, 85 fails and 90 passes.
\<close>

theorem coverage_threshold_witness:
  "\<not> passed (validateGate (coverageHost 72) (coverageThreshold defaultSettings)
                (transitionKey ''test'' ''review'')) \<and>
   passed (validateGate (coverageHost 85) (coverageThreshold defaultSettings)
             (transitionKey ''test'' ''review'')) \<and>
   passed (validateGate (coverageHost 80) (coverageThreshold defaultSettings)
             (transitionKey ''test'' ''review'')) \<and>
   passed (validateGate quietHost (coverageThreshold defaultSettings)
             (transitionKey ''test'' ''review'')) \<and>
   \<not> passed (validateGate (coverageHost 85) (coverageThreshold ninetySettings)
                (transitionKey ''test'' ''review'')) \<and>
   passed (validateGate (coverageHost 90) (coverageThreshold ninetySettings)
             (transitionKey ''test'' ''review''))"
proof -
  have d: "QUALITY_GATE_COVERAGE_THRESHOLD defaultSettings = None"
    by (simp add: defaultSettings_def)
  have n: "QUALITY_GATE_COVERAGE_THRESHOLD ninetySettings = Some (decimalText 90)"
    by (simp add: ninetySettings_def defaultSettings_def decimalText_def digitsOf.simps
        digitChar_def)
  have b: "\<bar>90 :: int\<bar> < 2 ^ 53" by simp
  have t: "trim (''true'' @ [CHR 0x0A]) = ''true''" "trim ''false'' \<noteq> ''true''"
    by (simp_all add: trim_def isSpace_def)
  have h: "sh_grepNpmTest (coverageHost c) = Returned (''true'' @ [CHR 0x0A])"
    "trim (''true'' @ [CHR 0x0A]) = ''true'' \<longrightarrow> sh_npmTest (coverageHost c) = Returned 0"
    "sh_testCoverage (coverageHost c) = Returned (''true'' @ [CHR 0x0A])"
    "readCoverage (coverageHost c) = Returned (Pct c)" for c
    by (simp_all add: coverageHost_def quietHost_def)
  have q: "sh_grepNpmTest quietHost = Returned ''false''"
    "trim ''false'' = ''true'' \<longrightarrow> sh_npmTest quietHost = Returned 0"
    "sh_testCoverage quietHost = Returned ''false''"
    by (simp_all add: quietHost_def)
  show ?thesis
    using d n b t h(4)
      coverage_threshold [OF h(1,2,3), where c = 72 and cfg = defaultSettings]
      coverage_threshold [OF h(1,2,3), where c = 85 and cfg = defaultSettings]
      coverage_threshold [OF h(1,2,3), where c = 80 and cfg = defaultSettings]
      coverage_threshold [OF q, where cfg = defaultSettings]
      coverage_threshold [OF h(1,2,3), where c = 85 and cfg = ninetySettings and t = 90]
      coverage_threshold [OF h(1,2,3), where c = 90 and cfg = ninetySettings and t = 90]
    by auto
qed

section \<open>Probes that cannot run\<close>

lemma validateGate_keys:
  "validateGate h t (transitionKey ''design'' ''implement'') = gate_design_implement h"
  "validateGate h t (transitionKey ''implement'' ''test'') = gate_implement_test h"
  "validateGate h t (transitionKey ''test'' ''review'') = gate_test_review h t"
  "validateGate h t (transitionKey ''review'' ''release'') = gate_review_release h"
  by (simp_all add: validateGate_def transitionKey_def arrow_def)

lemma design_probe_throws:
  "sh_findDesignFiles h = Threw e \<Longrightarrow>
   gate_design_implement h =
     gateResult h (transitionKey ''design'' ''implement'') False
       (crossMark @ '' Error checking design files: '' @ e)"
  by (simp add: gate_design_implement_def transitionKey_def)

lemma implement_probe_throws:
  "sh_testTsconfig h = Threw e \<Longrightarrow>
   gate_implement_test h =
     gateResult h (transitionKey ''implement'' ''test'') False
       (crossMark @ '' Error during implementation validation: '' @ e)"
  "sh_testTsconfig h = Returned a \<Longrightarrow> trim a = ''true'' \<Longrightarrow> sh_tsc h = Threw e \<Longrightarrow>
   gate_implement_test h =
     gateResult h (transitionKey ''implement'' ''test'') False
       (crossMark @ '' TypeScript compilation failed. Fix type errors before testing.'')"
  "sh_testTsconfig h = Returned a \<Longrightarrow> (trim a = ''true'' \<longrightarrow> sh_tsc h = Returned n) \<Longrightarrow>
   sh_testEslint h = Threw e \<Longrightarrow>
   gate_implement_test h =
     gateResult h (transitionKey ''implement'' ''test'') False
       (crossMark @ '' Error during implementation validation: '' @ e)"
  "sh_testTsconfig h = Returned a \<Longrightarrow> (trim a = ''true'' \<longrightarrow> sh_tsc h = Returned n) \<Longrightarrow>
   sh_testEslint h = Returned b \<Longrightarrow> trim b = ''true'' \<Longrightarrow> sh_eslint h = Threw e \<Longrightarrow>
   gate_implement_test h =
     gateResult h (transitionKey ''implement'' ''test'') False
       (crossMark @ '' Linting failed. Fix linting errors before testing.'')"
  by (auto simp: gate_implement_test_def lintStep_def transitionKey_def Let_def)

lemma test_probe_throws:
  "sh_grepNpmTest h = Threw e \<Longrightarrow>
   gate_test_review h t =
     gateResult h (transitionKey ''test'' ''review'') False
       (crossMark @ '' Error during test validation: '' @ e)"
  "sh_grepNpmTest h = Returned a \<Longrightarrow> trim a = ''true'' \<Longrightarrow> sh_npmTest h = Threw e \<Longrightarrow>
   gate_test_review h t =
     gateResult h (transitionKey ''test'' ''review'') False
       (crossMark @ '' Tests failed. Fix failing tests before review.'')"
  "sh_grepNpmTest h = Returned a \<Longrightarrow> (trim a = ''true'' \<longrightarrow> sh_npmTest h = Returned n) \<Longrightarrow>
   sh_testCoverage h = Threw e \<Longrightarrow>
   gate_test_review h t =
     gateResult h (transitionKey ''test'' ''review'') False
       (crossMark @ '' Error during test validation: '' @ e)"
  "sh_grepNpmTest h = Returned a \<Longrightarrow> (trim a = ''true'' \<longrightarrow> sh_npmTest h = Returned n) \<Longrightarrow>
   sh_testCoverage h = Returned b \<Longrightarrow> trim b = ''true'' \<Longrightarrow> readCoverage h = Threw e \<Longrightarrow>
   gate_test_review h t =
     gateResult h (transitionKey ''test'' ''review'') True
       (checkMark @ '' Tests pass with sufficient coverage'')"
  by (auto simp: gate_test_review_def coverageStep_def transitionKey_def Let_def)

lemma release_probe_throws:
  "sh_npmAudit h = Threw e \<Longrightarrow>
   gate_review_release h =
     gateResult h (transitionKey ''review'' ''release'') False
       (crossMark @ '' Security audit failed. Fix vulnerabilities before release.'')"
  "sh_npmAudit h = Returned 0 \<Longrightarrow> sh_testChangelog h = Threw e \<Longrightarrow>
   gate_review_release h =
     gateResult h (transitionKey ''review'' ''release'') False
       (crossMark @ '' Error during release validation: '' @ e)"
  by (auto simp: gate_review_release_def transitionKey_def Let_def)

lemma implement_steps_return:
  "sh_testTsconfig h = Returned a \<Longrightarrow> (trim a = ''true'' \<longrightarrow> sh_tsc h = Returned n) \<Longrightarrow>
   sh_testEslint h = Returned b \<Longrightarrow> (trim b = ''true'' \<longrightarrow> sh_eslint h = Returned m) \<Longrightarrow>
   gate_implement_test h =
     gateResult h (transitionKey ''implement'' ''test'') True
       (checkMark @ '' Code compiles and passes linting'')"
  by (auto simp: gate_implement_test_def lintStep_def transitionKey_def Let_def)

lemma test_steps_return:
  "sh_grepNpmTest h = Returned a \<Longrightarrow> (trim a = ''true'' \<longrightarrow> sh_npmTest h = Returned n) \<Longrightarrow>
   sh_testCoverage h = Returned b \<Longrightarrow> trim b \<noteq> ''true'' \<Longrightarrow>
   gate_test_review h t =
     gateResult h (transitionKey ''test'' ''review'') True
       (checkMark @ '' Tests pass with sufficient coverage'')"
  by (auto simp: gate_test_review_def coverageStep_def transitionKey_def Let_def)

text \<open>
  Claim C2, as the code has it: in each of the four gates, a probe whose call throws
  where the gate reaches it makes the gate fail with the message of its \<^verbatim>\<open>catch\<close>,
  with one exception: when the coverage summary is present and reading it throws, the
  test-to-review gate passes. A step behind a configuration probe that does not answer
  \<^verbatim>\<open>true\<close> is skipped and cannot fail the gate: when the configuration probes return
  and each configured step returns, the implement-to-test gate passes whatever the
  compiler and the linter would do where they are not configured, and the
  test-to-review gate passes without a coverage summary whatever the test suite and
  the coverage read would do.
\<close>

theorem probes_fail_closed:
  "(sh_findDesignFiles h = Threw e \<longrightarrow>
      validateGate h t (transitionKey ''design'' ''implement'') =
        gateResult h (transitionKey ''design'' ''implement'') False
          (crossMark @ '' Error checking design files: '' @ e)) \<and>
   (sh_testTsconfig h = Threw e \<longrightarrow>
      validateGate h t (transitionKey ''implement'' ''test'') =
        gateResult h (transitionKey ''implement'' ''test'') False
          (crossMark @ '' Error during implementation validation: '' @ e)) \<and>
   (sh_testTsconfig h = Returned a \<and> trim a = ''true'' \<and> sh_tsc h = Threw e \<longrightarrow>
      validateGate h t (transitionKey ''implement'' ''test'') =
        gateResult h (transitionKey ''implement'' ''test'') False
          (crossMark @ '' TypeScript compilation failed. Fix type errors before testing.'')) \<and>
   (sh_testTsconfig h = Returned a \<and> (trim a = ''true'' \<longrightarrow> sh_tsc h = Returned n) \<and>
    sh_testEslint h = Threw e \<longrightarrow>
      validateGate h t (transitionKey ''implement'' ''test'') =
        gateResult h (transitionKey ''implement'' ''test'') False
          (crossMark @ '' Error during implementation validation: '' @ e)) \<and>
   (sh_testTsconfig h = Returned a \<and> (trim a = ''true'' \<longrightarrow> sh_tsc h = Returned n) \<and>
    sh_testEslint h = Returned b \<and> trim b = ''true'' \<and> sh_eslint h = Threw e \<longrightarrow>
      validateGate h t (transitionKey ''implement'' ''test'') =
        gateResult h (transitionKey ''implement'' ''test'') False
          (crossMark @ '' Linting failed. Fix linting errors before testing.'')) \<and>
   (sh_grepNpmTest h = Threw e \<longrightarrow>
      validateGate h t (transitionKey ''test'' ''review'') =
        gateResult h (transitionKey ''test'' ''review'') False
          (crossMark @ '' Error during test validation: '' @ e)) \<and>
   (sh_grepNpmTest h = Returned a \<and> trim a = ''true'' \<and> sh_npmTest h = Threw e \<longrightarrow>
      validateGate h t (transitionKey ''test'' ''review'') =
        gateResult h (transitionKey ''test'' ''review'') False
          (crossMark @ '' Tests failed. Fix failing tests before review.'')) \<and>
   (sh_grepNpmTest h = Returned a \<and> (trim a = ''true'' \<longrightarrow> sh_npmTest h = Returned n) \<and>
    sh_testCoverage h = Threw e \<longrightarrow>
      validateGate h t (transitionKey ''test'' ''review'') =
        gateResult h (transitionKey ''test'' ''review'') False
          (crossMark @ '' Error during test validation: '' @ e)) \<and>
   (sh_grepNpmTest h = Returned a \<and> (trim a = ''true'' \<longrightarrow> sh_npmTest h = Returned n) \<and>
    sh_testCoverage h = Returned b \<and> trim b = ''true'' \<and> readCoverage h = Threw e \<longrightarrow>
      validateGate h t (transitionKey ''test'' ''review'') =
        gateResult h (transitionKey ''test'' ''review'') True
          (checkMark @ '' Tests pass with sufficient coverage'')) \<and>
   (sh_npmAudit h = Threw e \<longrightarrow>
      validateGate h t (transitionKey ''review'' ''release'') =
        gateResult h (transitionKey ''review'' ''release'') False
          (crossMark @ '' Security audit failed. Fix vulnerabilities before release.'')) \<and>
   (sh_npmAudit h = Returned 0 \<and> sh_testChangelog h = Threw e \<longrightarrow>
      validateGate h t (transitionKey ''review'' ''release'') =
        gateResult h (transitionKey ''review'' ''release'') False
          (crossMark @ '' Error during release validation: '' @ e)) \<and>
   (sh_testTsconfig h = Returned a \<and> (trim a = ''true'' \<longrightarrow> sh_tsc h = Returned n) \<and>
    sh_testEslint h = Returned b \<and> (trim b = ''true'' \<longrightarrow> sh_eslint h = Returned m) \<longrightarrow>
      validateGate h t (transitionKey ''implement'' ''test'') =
        gateResult h (transitionKey ''implement'' ''test'') True
          (checkMark @ '' Code compiles and passes linting'')) \<and>
   (sh_grepNpmTest h = Returned a \<and> (trim a = ''true'' \<longrightarrow> sh_npmTest h = Returned n) \<and>
    sh_testCoverage h = Returned b \<and> trim b \<noteq> ''true'' \<longrightarrow>
      validateGate h t (transitionKey ''test'' ''review'') =
        gateResult h (transitionKey ''test'' ''review'') True
          (checkMark @ '' Tests pass with sufficient coverage''))"
  unfolding validateGate_keys
  by (intro conjI impI; (elim conjE)?)
     (erule (4) design_probe_throws implement_probe_throws test_probe_throws release_probe_throws |
      erule (3) implement_steps_return test_steps_return implement_probe_throws test_probe_throws |
      erule (2) implement_probe_throws test_probe_throws |
      erule (1) release_probe_throws |
      erule design_probe_throws implement_probe_throws test_probe_throws release_probe_throws)+

theorem probes_fail_closed_witness:
  "\<not> passed (validateGate (quietHost\<lparr>sh_findDesignFiles := Threw ''find: not found''\<rparr>) (Finite 80)
               (transitionKey ''design'' ''implement'')) \<and>
   message (validateGate (quietHost\<lparr>sh_testTsconfig := Returned ''true'',
                                     sh_tsc := Threw ''npx: not found''\<rparr>) (Finite 80)
              (transitionKey ''implement'' ''test'')) =
     crossMark @ '' TypeScript compilation failed. Fix type errors before testing.'' \<and>
   message (validateGate (quietHost\<lparr>sh_grepNpmTest := Returned ''true'',
                                     sh_npmTest := Threw ''npm: not found''\<rparr>) (Finite 80)
              (transitionKey ''test'' ''review'')) =
     crossMark @ '' Tests failed. Fix failing tests before review.'' \<and>
   sh_npmAudit auditMissingHost = Threw ''npm: command not found'' \<and>
   \<not> passed (validateGate auditMissingHost (Finite 80) (transitionKey ''review'' ''release'')) \<and>
   message (validateGate auditMissingHost (Finite 80) (transitionKey ''review'' ''release'')) =
     crossMark @ '' Security audit failed. Fix vulnerabilities before release.'' \<and>
   sh_tsc unconfiguredHost = Threw ''npx: not found'' \<and>
   sh_eslint unconfiguredHost = Threw ''npx: not found'' \<and>
   passed (validateGate unconfiguredHost (Finite 80) (transitionKey ''implement'' ''test'')) \<and>
   sh_npmTest unconfiguredHost = Threw ''npm: not found'' \<and>
   passed (validateGate unconfiguredHost (Finite 80) (transitionKey ''test'' ''review''))"
proof -
  have a: "sh_npmAudit auditMissingHost = Threw ''npm: command not found''"
    by (simp add: auditMissingHost_def quietHost_def)
  have t: "trim ''true'' = ''true''" "trim ''false'' \<noteq> ''true''"
    by (simp_all add: trim_def isSpace_def)
  have u: "sh_testTsconfig unconfiguredHost = Returned ''false''"
    "sh_testEslint unconfiguredHost = Returned ''false''"
    "sh_grepNpmTest unconfiguredHost = Returned ''false''"
    "sh_testCoverage unconfiguredHost = Returned ''false''"
    "sh_tsc unconfiguredHost = Threw ''npx: not found''"
    "sh_eslint unconfiguredHost = Threw ''npx: not found''"
    "sh_npmTest unconfiguredHost = Threw ''npm: not found''"
    by (simp_all add: unconfiguredHost_def quietHost_def)
  show ?thesis
    using a t u
      probes_fail_closed [where h = auditMissingHost and e = "''npm: command not found''"
        and t = "Finite 80"]
      probes_fail_closed [where h = "quietHost\<lparr>sh_findDesignFiles := Threw ''find: not found''\<rparr>"
        and e = "''find: not found''" and t = "Finite 80"]
      probes_fail_closed [where h = "quietHost\<lparr>sh_testTsconfig := Returned ''true'',
        sh_tsc := Threw ''npx: not found''\<rparr>" and e = "''npx: not found''" and t = "Finite 80"
        and a = "''true''"]
      probes_fail_closed [where h = "quietHost\<lparr>sh_grepNpmTest := Returned ''true'',
        sh_npmTest := Threw ''npm: not found''\<rparr>" and e = "''npm: not found''" and t = "Finite 80"
        and a = "''true''"]
      probes_fail_closed [where h = unconfiguredHost and t = "Finite 80" and a = "''false''"
        and b = "''false''"]
    by (simp add: gateResult_def)
qed

text \<open>
  Claim C2 as stated fails: the coverage summary is there, reading it throws, and the
  gate passes.
\<close>

theorem probes_fail_closed_counterexample:
  "sh_testCoverage unreadableCoverageHost = Returned (''true'' @ [CHR 0x0A]) \<and>
   readCoverage unreadableCoverageHost = Threw ''ShellError: Failed with exit code 1'' \<and>
   passed (validateGate unreadableCoverageHost (Finite 80) (transitionKey ''test'' ''review''))"
  by (simp add: validateGate_keys gate_test_review_def coverageStep_def unreadableCoverageHost_def
      quietHost_def trim_def isSpace_def gateResult_def)

section \<open>Malformed log lines\<close>


lemma parseLines_parsed: "parseLines (map Parsed vs) = Inr vs"
  by (induction vs) auto

lemma fileLines_nonempty: "ls \<noteq> [] \<Longrightarrow> fileLines ls = ls"
  by (simp add: fileLines_def)





section \<open>Failing appends\<close>

lemma hook_never_raises_write_error:
  "fst (tool_execute_before cfg h tool args s) = Inr () \<or>
   (\<exists>msg. fst (tool_execute_before cfg h tool args s) = Inl (GateBlocked msg))"
  by (simp add: tool_execute_before_def Let_def split: option.splits)

lemma logGateCheck_fails:
  "writeFails h GateLogFile \<Longrightarrow>
   logGateCheck h entry s =
     notifier_show Error
       (''Failed to log quality gate check: '' @ errorToString h (FsError GateLogFile)) s"
  by (simp add: logGateCheck_def)

lemma hook_gateLog_unwritable:
  assumes "writeFails h GateLogFile"
  shows "gateLogFile (snd (tool_execute_before cfg h tool args s)) = gateLogFile s"
  using assms
  by (simp add: tool_execute_before_def Let_def logGateCheck_fails notifier_show_tracker
      trackModification_tracker split: option.splits)

lemma trackPhase_log_unwritable:
  assumes "writeFails h TransitionsLog" and "toLowerCase phase \<in> set validPhases"
    and "workflowDirExists s \<or> \<not> writeFails h WorkflowDir"
  shows "trackPhase h phase s = (Inl (FsError TransitionsLog), s\<lparr>workflowDirExists := True\<rparr>)"
  using assms
  by (auto simp: trackPhase_def initializeWorkflowState_def logTransition_def Let_def)

text \<open>
  Claim C4, as the code has it: a failing append to the transition log is raised by
  \<^verbatim>\<open>logTransition\<close> and by the tool that calls it, which then changes neither the
  phase nor the log. A failing append to the gate log is caught by \<^verbatim>\<open>logGateCheck\<close>:
  an error notification is requested, no record is written, and the hook raises
  nothing but the blocking error of the strict mode.
\<close>

theorem append_failure_handling:
  "(writeFails h TransitionsLog \<longrightarrow>
      logTransition h from to files s = Inl (FsError TransitionsLog)) \<and>
   (writeFails h TransitionsLog \<and> toLowerCase phase \<in> set validPhases \<and>
    (workflowDirExists s \<or> \<not> writeFails h WorkflowDir) \<longrightarrow>
      trackPhase h phase s = (Inl (FsError TransitionsLog), s\<lparr>workflowDirExists := True\<rparr>)) \<and>
   (writeFails h GateLogFile \<longrightarrow>
      logGateCheck h entry s =
        notifier_show Error
          (''Failed to log quality gate check: '' @ errorToString h (FsError GateLogFile)) s \<and>
      gateLogFile (snd (qualityGate_before cfg h tool args s)) = gateLogFile s) \<and>
   (fst (qualityGate_before cfg h tool args s) = Inr () \<or>
    (\<exists>msg. fst (qualityGate_before cfg h tool args s) = Inl (GateBlocked msg)))"
proof (intro conjI impI)
  show "logTransition h from to files s = Inl (FsError TransitionsLog)"
    if "writeFails h TransitionsLog"
    using that by (simp add: logTransition_def)
  show "trackPhase h phase s = (Inl (FsError TransitionsLog), s\<lparr>workflowDirExists := True\<rparr>)"
    if "writeFails h TransitionsLog \<and> toLowerCase phase \<in> set validPhases \<and>
        (workflowDirExists s \<or> \<not> writeFails h WorkflowDir)"
    using that trackPhase_log_unwritable by blast
  show "logGateCheck h entry s =
          notifier_show Error
            (''Failed to log quality gate check: '' @ errorToString h (FsError GateLogFile)) s"
    if "writeFails h GateLogFile"
    using that by (rule logGateCheck_fails)
  show "gateLogFile (snd (qualityGate_before cfg h tool args s)) = gateLogFile s"
    if "writeFails h GateLogFile"
    using that by (simp add: qualityGate_before_def hook_gateLog_unwritable)
  show "fst (qualityGate_before cfg h tool args s) = Inr () \<or>
        (\<exists>msg. fst (qualityGate_before cfg h tool args s) = Inl (GateBlocked msg))"
    using hook_never_raises_write_error [of cfg h tool args s]
    by (simp add: qualityGate_before_def)
qed

theorem append_failure_handling_witness:
  "writeFails transitionsFullHost TransitionsLog \<and>
   toLowerCase ''design'' \<in> set validPhases \<and>
   trackPhase transitionsFullHost ''design'' initialState =
     (Inl (FsError TransitionsLog), initialState\<lparr>workflowDirExists := True\<rparr>) \<and>
   writeFails gateLogFullHost GateLogFile \<and>
   gateLogFile
     (snd (qualityGate_before defaultSettings gateLogFullHost ''track-phase''
             \<lparr>arg_phase = Some ''implement'', arg_file_path = None, arg_path = None\<rparr>
             designState)) = gateLogFile designState"
proof -
  have a: "writeFails transitionsFullHost TransitionsLog"
    "\<not> writeFails transitionsFullHost WorkflowDir"
    by (simp_all add: transitionsFullHost_def quietHost_def)
  have b: "toLowerCase ''design'' \<in> set validPhases"
    by (simp add: toLowerCase_def toLowerChar_def validPhases_def)
  have c: "writeFails gateLogFullHost GateLogFile"
    by (simp add: gateLogFullHost_def noDesignHost_def quietHost_def)
  show ?thesis
    using a b c
      append_failure_handling [where h = transitionsFullHost and phase = "''design''"
        and s = initialState]
      append_failure_handling [where h = gateLogFullHost and s = designState
        and cfg = defaultSettings and tool = "''track-phase''"
        and args = "\<lparr>arg_phase = Some ''implement'', arg_file_path = None, arg_path = None\<rparr>"]
    by simp
qed

text \<open>
  Claim C4 as stated fails: the append to the gate log fails, and the request to track
  the phase returns its confirmation; the gate record is lost.
\<close>

theorem append_failure_counterexample:
  "writeFails gateLogFullHost GateLogFile \<and>
   requestTrackPhase defaultSettings gateLogFullHost ''implement'' designState =
     (Inr (checkMark @ '' Transitioned to implement phase from design''),
      designState
        \<lparr>currentPhase := Some ''implement'', phaseStartTime := Some 1000,
         workflowDirExists := True,
         transitionsFile :=
           Some [Parsed \<lparr>t_timestamp = 1000, t_from = Some ''design'', t_to = ''implement'',
                         t_duration = 1000, t_filesModified = Some []\<rparr>],
         toasts :=
           [(Error, ''Failed to log quality gate check: Error''),
            (WarningToast, ''Quality Gate Warning: '' @ crossMark @
               '' No design files found. Create design specifications before implementing.'')]\<rparr>) \<and>
   gateLogFile designState = None"
  by (simp add: requestTrackPhase_def qualityGate_before_def tool_execute_before_def
      validateGate_def transitionKey_def gate_design_implement_def gateResult_def trim_def
      logGateCheck_def notifier_show_def trackPhase_def initializeWorkflowState_def
      logTransition_def getCurrentPhase_def getFilesModified_def setCurrentPhase_def
      clearModifiedFiles_def transitionedMessage_def toLowerCase_def toLowerChar_def
      validPhases_def enabled_def strictMode_def coverageThreshold_def defaultSettings_def
      gateLogFullHost_def noDesignHost_def quietHost_def designState_def initialState_def
      Let_def)

section \<open>The report fold\<close>

lemma phaseCountSum_setOwn_present:
  "map_of ps k = Some st \<Longrightarrow>
   phaseCountSum (setOwn k v ps) + count st = phaseCountSum ps + count v"
  by (induction ps) (auto simp: phaseCountSum_def)

lemma phaseCountSum_setOwn_absent:
  "map_of ps k = None \<Longrightarrow> phaseCountSum (setOwn k v ps) = phaseCountSum ps + count v"
  by (induction ps) (auto simp: phaseCountSum_def)

lemma phaseCountSum_countPhase:
  assumes "k \<notin> set objectPrototypeKeys"
  shows "phaseCountSum (countPhase k d ps) = phaseCountSum ps + 1"
proof (cases "map_of ps k")
  case None
  then show ?thesis
    using assms phaseCountSum_setOwn_absent [OF None, of "\<lparr>count = 1, totalDuration = d\<rparr>"]
    by (simp add: countPhase_def)
next
  case (Some st)
  then show ?thesis
    using phaseCountSum_setOwn_present [OF Some,
        of "\<lparr>count = count st + 1, totalDuration = totalDuration st + d\<rparr>"]
    by (simp add: countPhase_def)
qed

text \<open>Every target the track-phase tool can log is counted under an own property.\<close>

lemma accepted_target_countable:
  assumes "toLowerCase p \<in> set validPhases"
  shows "p \<noteq> [] \<and> p \<notin> set objectPrototypeKeys"
  using assms
  by (auto simp: objectPrototypeKeys_def validPhases_def toLowerCase_def toLowerChar_def)

lemma reportStep_counts:
  assumes "t_to t \<noteq> []" and "t_to t \<notin> set objectPrototypeKeys"
  shows "phaseCountSum (phases (reportStep r t)) = phaseCountSum (phases r) + 1"
    and "totalTransitions (reportStep r t) = totalTransitions r"
  using assms
  by (simp_all add: reportStep_def phaseCountSum_countPhase Let_def split: option.splits)

lemma foldl_reportStep_counts:
  assumes "\<forall>t \<in> set ts. t_to t \<noteq> [] \<and> t_to t \<notin> set objectPrototypeKeys"
  shows "phaseCountSum (phases (foldl reportStep r ts)) = phaseCountSum (phases r) + length ts \<and>
         totalTransitions (foldl reportStep r ts) = totalTransitions r"
  using assms
proof (induction ts arbitrary: r)
  case Nil
  then show ?case by simp
next
  case (Cons t ts)
  then show ?case by (simp add: reportStep_counts)
qed

text \<open>
  Where the fold does round-trip: for a log of at least one valid line, every target
  non-empty and no name of a member inherited from \<^verbatim>\<open>Object.prototype\<close>, and a
  report file that can be written, \<^verbatim>\<open>generateReport\<close> returns the report, whose
  \<open>totalTransitions\<close> and whose phase counts summed are both the number of lines.
\<close>

lemma report_round_trip:
  assumes "transitionsFile s = Some (map Parsed ts)" and "ts \<noteq> []"
    and "\<forall>t \<in> set ts. t_to t \<noteq> [] \<and> t_to t \<notin> set objectPrototypeKeys"
    and "\<not> writeFails h ReportFile"
  shows "fst (generateReport h s) = Inr (Report (foldReport ts)) \<and>
         totalTransitions (foldReport ts) = length ts \<and>
         phaseCountSum (phases (foldReport ts)) = length ts"
proof -
  have "fst (generateReport h s) = Inr (Report (foldReport ts))"
    using assms(1,2,4)
    by (simp add: generateReport_def fileLines_nonempty parseLines_parsed Let_def)
  moreover have "totalTransitions (foldReport ts) = length ts"
    "phaseCountSum (phases (foldReport ts)) = length ts"
    using foldl_reportStep_counts [OF assms(3),
        of "\<lparr>totalTransitions = length ts, phases = [], filesChanged = []\<rparr>"]
    by (simp_all add: foldReport_def phaseCountSum_def)
  ultimately show ?thesis by simp
qed

text \<open>The log of two transitions folds into two phases counted once each.\<close>

lemma report_round_trip_scenario:
  "fst (generateReport quietHost (initialState\<lparr>transitionsFile := Some (map Parsed scenarioLog)\<rparr>)) =
     Inr (Report \<lparr>totalTransitions = 2,
                  phases = [(''design'', \<lparr>count = 1, totalDuration = 0\<rparr>),
                            (''implement'', \<lparr>count = 1, totalDuration = 1000\<rparr>)],
                  filesChanged = [''a.ts'', ''b.ts'']\<rparr>) \<and>
   phaseCountSum (phases (foldReport scenarioLog)) = 2"
proof -
  have a: "transitionsFile (initialState\<lparr>transitionsFile := Some (map Parsed scenarioLog)\<rparr>) =
           Some (map Parsed scenarioLog)"
    by simp
  have b: "scenarioLog \<noteq> []" by (simp add: scenarioLog_def)
  have c: "\<forall>t \<in> set scenarioLog. t_to t \<noteq> [] \<and> t_to t \<notin> set objectPrototypeKeys"
    by (simp add: scenarioLog_def objectPrototypeKeys_def)
  have d: "\<not> writeFails quietHost ReportFile" by (simp add: quietHost_def)
  have e: "foldReport scenarioLog =
             \<lparr>totalTransitions = 2,
              phases = [(''design'', \<lparr>count = 1, totalDuration = 0\<rparr>),
                        (''implement'', \<lparr>count = 1, totalDuration = 1000\<rparr>)],
              filesChanged = [''a.ts'', ''b.ts'']\<rparr>"
    by (simp add: foldReport_def scenarioLog_def reportStep_def countPhase_def
        objectPrototypeKeys_def addToSet_def)
  show ?thesis
    using report_round_trip [OF a b c d] by (simp add: e b)
qed

text \<open>
  Claim C7: a log of \<open>N\<close> valid transition lines with non-empty targets folds into a
  report with \<open>totalTransitions = N\<close> and phase counts that sum to \<open>N\<close>. The code
  misses it on two logs. For the single valid line with the target \<^verbatim>\<open>"constructor"\<close>
  the read \<^verbatim>\<open>report.phases[t.to]\<close> finds the inherited member, no phase is entered,
  and the counts sum to 0 where \<open>N = 1\<close>. A log with no line is read as the one line
  \<^verbatim>\<open>""\<close>, and \<^verbatim>\<open>JSON.parse\<close> throws where \<open>N = 0\<close>.
\<close>

theorem report_round_trip_fails:
  "t_to constructorTransition \<noteq> [] \<and>
   fst (generateReport quietHost (initialState\<lparr>transitionsFile := Some [Parsed constructorTransition]\<rparr>)) =
     Inr (Report \<lparr>totalTransitions = 1, phases = [], filesChanged = []\<rparr>) \<and>
   phaseCountSum [] \<noteq> 1 \<and>
   fst (generateReport quietHost (initialState\<lparr>transitionsFile := Some []\<rparr>)) = Inl SyntaxError"
  by (simp add: generateReport_def fileLines_def foldReport_def reportStep_def countPhase_def
      constructorTransition_def objectPrototypeKeys_def quietHost_def phaseCountSum_def Let_def)

end
